theory Spec2Isabelle
  imports Complex_Main "HOL-Library.Multiset"
begin

section \<open>The loan application system of \<^verbatim>\<open>project.py\<close>\<close>

text \<open>
  A shallow embedding of the ledger part of \<^verbatim>\<open>project.py\<close>: the classes
  \<^verbatim>\<open>User\<close>, \<^verbatim>\<open>Loan\<close>, \<^verbatim>\<open>Payment\<close> and the methods of
  \<^verbatim>\<open>LoanApplicationSystem\<close> that read or write the three tables.

  Conventions of the model.
  \<^item> The PostgreSQL database is a record of three tables, each a list of rows in the order
    of insertion, and the three \<^verbatim>\<open>SERIAL\<close> sequences. A row is written as the object the
    class builds from it with \<^verbatim>\<open>cls(*row)\<close>; a stored row always carries \<open>Some\<close> id.
    A \<^verbatim>\<open>SELECT\<close> without \<^verbatim>\<open>ORDER BY\<close> returns the rows in table order;
    \<^verbatim>\<open>ORDER BY c DESC\<close> is a stable sort of the table order. The connection runs with
    \<^verbatim>\<open>autocommit = True\<close>, so every statement is a commit of its own.
  \<^item> A write to \<^verbatim>\<open>loans\<close> or \<^verbatim>\<open>payments\<close> converts every value to the type of its
    column: a \<^verbatim>\<open>DECIMAL(p, s)\<close> column rounds to \<open>s\<close> fractional digits, half away from
    zero, keeps \<^verbatim>\<open>NaN\<close>, and raises when the rounded value needs more than \<open>p\<close> digits or
    is infinite; an \<^verbatim>\<open>INTEGER\<close> column raises outside of 32 bits. A statement that raises
    writes nothing. The constraints of the table \<^verbatim>\<open>users\<close> (lengths, uniqueness) and
    the end of a sequence are not modelled.
  \<^item> A Python \<^verbatim>\<open>float\<close> is one of \<^verbatim>\<open>nan\<close>, \<^verbatim>\<open>inf\<close>, \<^verbatim>\<open>-inf\<close> or a number, written
    as the decimal number that \<^verbatim>\<open>repr\<close> prints for it: this is the number that
    \<^verbatim>\<open>psycopg2\<close> sends to the store, and two floats compare as these numbers do, with
    every comparison with \<^verbatim>\<open>nan\<close> false. The results of \<^verbatim>\<open>+\<close>, \<^verbatim>\<open>-\<close> and \<^verbatim>\<open>/\<close> are
    the exact ones: their rounding to 53 bits is not modelled, the rounding of the store to
    two decimals is. A \<^verbatim>\<open>DECIMAL\<close> value read from the store is the float of the same
    value.
  \<^item> \<^verbatim>\<open>datetime.now()\<close> and the text typed at a prompt are arguments. A prompt that is
    read through \<^verbatim>\<open>int(input(...))\<close> or \<^verbatim>\<open>float(input(...))\<close> is an option: \<open>None\<close>
    when the conversion raises \<^verbatim>\<open>ValueError\<close>.
  \<^item> A method that answers by printing returns the status line it prints (listings and
    leading newlines are left out). An exception that the method does not catch leaves
    \<^verbatim>\<open>run\<close>; the main block prints \<^verbatim>\<open>An error occurred\<close> followed by the text of the
    exception, and the program ends. The method then returns that line without the text
    of the exception.
  \<^item> \<^verbatim>\<open>bcrypt\<close> is not part of the program: the hash it produces and the verdict of
    \<^verbatim>\<open>bcrypt.checkpw\<close> are arguments.
\<close>

subsection \<open>Python floats and integers\<close>

datatype pyfloat = Finite rat | NaN | PosInf | NegInf

text \<open>The comparisons \<^verbatim>\<open><\<close>, \<^verbatim>\<open>==\<close>, \<^verbatim>\<open><=\<close>, \<^verbatim>\<open>>\<close>: every comparison with \<^verbatim>\<open>nan\<close> is
  false.\<close>

fun float_lt :: "pyfloat \<Rightarrow> pyfloat \<Rightarrow> bool" where
  "float_lt (Finite x) (Finite y) \<longleftrightarrow> x < y"
| "float_lt (Finite x) PosInf \<longleftrightarrow> True"
| "float_lt NegInf (Finite y) \<longleftrightarrow> True"
| "float_lt NegInf PosInf \<longleftrightarrow> True"
| "float_lt _ _ \<longleftrightarrow> False"

fun float_eq :: "pyfloat \<Rightarrow> pyfloat \<Rightarrow> bool" where
  "float_eq (Finite x) (Finite y) \<longleftrightarrow> x = y"
| "float_eq PosInf PosInf \<longleftrightarrow> True"
| "float_eq NegInf NegInf \<longleftrightarrow> True"
| "float_eq _ _ \<longleftrightarrow> False"

definition float_le :: "pyfloat \<Rightarrow> pyfloat \<Rightarrow> bool" where
  "float_le a b \<longleftrightarrow> float_lt a b \<or> float_eq a b"

definition float_gt :: "pyfloat \<Rightarrow> pyfloat \<Rightarrow> bool" where
  "float_gt a b \<longleftrightarrow> float_lt b a"

text \<open>The operators \<^verbatim>\<open>+\<close> and \<^verbatim>\<open>-\<close> on floats.\<close>

fun float_add :: "pyfloat \<Rightarrow> pyfloat \<Rightarrow> pyfloat" where
  "float_add (Finite x) (Finite y) = Finite (x + y)"
| "float_add NaN _ = NaN"
| "float_add _ NaN = NaN"
| "float_add PosInf NegInf = NaN"
| "float_add NegInf PosInf = NaN"
| "float_add PosInf _ = PosInf"
| "float_add _ PosInf = PosInf"
| "float_add NegInf _ = NegInf"
| "float_add _ NegInf = NegInf"

fun float_neg :: "pyfloat \<Rightarrow> pyfloat" where
  "float_neg (Finite x) = Finite (- x)"
| "float_neg NaN = NaN"
| "float_neg PosInf = NegInf"
| "float_neg NegInf = PosInf"

definition float_sub :: "pyfloat \<Rightarrow> pyfloat \<Rightarrow> pyfloat" where
  "float_sub a b = float_add a (float_neg b)"

text \<open>\<^verbatim>\<open>min(a, b)\<close>: the first argument, unless the second is smaller.\<close>

definition py_min :: "pyfloat \<Rightarrow> pyfloat \<Rightarrow> pyfloat" where
  "py_min a b = (if float_lt b a then b else a)"

text \<open>The exceptions of the model: the two that the division \<^verbatim>\<open>/\<close> of integers raises,
  and the error of \<^verbatim>\<open>psycopg2\<close> for a value that does not fit its column. None of them is
  a \<^verbatim>\<open>ValueError\<close>.\<close>

datatype py_exception = OverflowError | ZeroDivisionError | DataError

text \<open>\<^verbatim>\<open>a / b\<close> on two integers: the quotient as a float, or \<^verbatim>\<open>OverflowError\<close> when the
  quotient rounds to a float beyond the largest one, which is the case from
  \<open>2 ^ 1024 - 2 ^ 970\<close> on.\<close>

definition float_overflow :: rat where
  "float_overflow = 2 ^ 1024 - 2 ^ 970"

definition int_truediv :: "int \<Rightarrow> int \<Rightarrow> py_exception + pyfloat" where
  "int_truediv a b =
     (if b = 0 then Inl ZeroDivisionError
      else if float_overflow \<le> \<bar>of_int a / of_int b\<bar> then Inl OverflowError
      else Inr (Finite (of_int a / of_int b)))"

subsection \<open>Column types\<close>

text \<open>Rounding to the nearest integer, a tie away from zero, as PostgreSQL rounds a
  \<^verbatim>\<open>numeric\<close>.\<close>

definition round_half_away :: "rat \<Rightarrow> int" where
  "round_half_away x = (if 0 \<le> x then \<lfloor>x + 1 / 2\<rfloor> else - \<lfloor>- x + 1 / 2\<rfloor>)"

text \<open>The conversion of a float to a column \<^verbatim>\<open>DECIMAL(precision, scale)\<close>.\<close>

definition numeric_cast :: "nat \<Rightarrow> nat \<Rightarrow> pyfloat \<Rightarrow> py_exception + pyfloat" where
  "numeric_cast precision scale v =
     (case v of
        Finite x \<Rightarrow>
          (let digits = round_half_away (x * 10 ^ scale) in
             if 10 ^ precision \<le> \<bar>digits\<bar> then Inl DataError
             else Inr (Finite (of_int digits / 10 ^ scale)))
      | NaN \<Rightarrow> Inr NaN
      | PosInf \<Rightarrow> Inl DataError
      | NegInf \<Rightarrow> Inl DataError)"

text \<open>The conversion of a Python integer to a column \<^verbatim>\<open>INTEGER\<close>.\<close>

definition integer_cast :: "int \<Rightarrow> py_exception + int" where
  "integer_cast n = (if - (2 ^ 31) \<le> n \<and> n < 2 ^ 31 then Inr n else Inl DataError)"

subsection \<open>Entities\<close>

type_synonym datetime = int

record User =
  user_id :: "int option"
  username :: string
  password_hash :: string
  is_admin :: bool
  user_created_at :: "datetime option"

record Loan =
  loan_id :: "int option"
  loan_user_id :: "int option"
  amount :: pyfloat
  loan_term :: int
  interest_rate :: pyfloat
  status :: string
  loan_created_at :: datetime
  current_balance :: pyfloat

record Payment =
  payment_id :: "int option"
  payment_loan_id :: "int option"
  payment_amount :: pyfloat
  payment_date :: datetime

record database =
  users :: "User list"
  loans :: "Loan list"
  payments :: "Payment list"
  users_user_id_seq :: int
  loans_loan_id_seq :: int
  payments_payment_id_seq :: int

text \<open>\<^verbatim>\<open>ORDER BY key DESC\<close>: the rows with the greatest key first, rows of equal key in
  table order.\<close>

definition order_by_desc :: "('a \<Rightarrow> int) \<Rightarrow> 'a list \<Rightarrow> 'a list" where
  "order_by_desc key rows = sort_key (\<lambda>r. - key r) rows"

subsection \<open>Class \<^verbatim>\<open>User\<close>\<close>

text \<open>\<^verbatim>\<open>User.create(username, password, is_admin)\<close>; \<open>pw_hash\<close> is the result of
  \<^verbatim>\<open>bcrypt.hashpw\<close> on the password.\<close>

definition User_create :: "string \<Rightarrow> string \<Rightarrow> bool \<Rightarrow> User" where
  "User_create name pw_hash admin =
     \<lparr>user_id = None, username = name, password_hash = pw_hash, is_admin = admin,
      user_created_at = None\<rparr>"

text \<open>\<^verbatim>\<open>User.save\<close>: \<^verbatim>\<open>INSERT ... RETURNING user_id\<close> for a new object (the column
  \<^verbatim>\<open>created_at\<close> takes its default, the time \<open>now\<close> of the insertion), \<^verbatim>\<open>UPDATE\<close>
  of the row with the object's id otherwise.\<close>

definition User_save :: "User \<Rightarrow> datetime \<Rightarrow> database \<Rightarrow> User \<times> database" where
  "User_save self now d =
     (if user_id self = None then
        (let new_id = users_user_id_seq d in
           (self\<lparr>user_id := Some new_id\<rparr>,
            d\<lparr>users := users d @ [self\<lparr>user_id := Some new_id, user_created_at := Some now\<rparr>],
              users_user_id_seq := new_id + 1\<rparr>))
      else
        (self,
         d\<lparr>users := map (\<lambda>r. if user_id r = user_id self
                              then r\<lparr>username := username self,
                                     password_hash := password_hash self,
                                     is_admin := is_admin self\<rparr>
                              else r) (users d)\<rparr>))"

definition User_get_by_username :: "database \<Rightarrow> string \<Rightarrow> User option" where
  "User_get_by_username d name = find (\<lambda>r. username r = name) (users d)"

definition User_get_by_id :: "database \<Rightarrow> int \<Rightarrow> User option" where
  "User_get_by_id d uid = find (\<lambda>r. user_id r = Some uid) (users d)"

subsection \<open>Class \<^verbatim>\<open>Loan\<close>\<close>

text \<open>The values of a loan object as the columns of \<^verbatim>\<open>loans\<close> take them:
  \<^verbatim>\<open>amount DECIMAL(10, 2)\<close>, \<^verbatim>\<open>term INTEGER\<close>, \<^verbatim>\<open>interest_rate DECIMAL(5, 2)\<close>,
  \<^verbatim>\<open>current_balance DECIMAL(10, 2)\<close>.\<close>

definition loans_row :: "Loan \<Rightarrow> py_exception + Loan" where
  "loans_row self =
     (case numeric_cast 10 2 (amount self) of
        Inl e \<Rightarrow> Inl e
      | Inr a \<Rightarrow>
          (case integer_cast (loan_term self) of
             Inl e \<Rightarrow> Inl e
           | Inr t \<Rightarrow>
               (case numeric_cast 5 2 (interest_rate self) of
                  Inl e \<Rightarrow> Inl e
                | Inr r \<Rightarrow>
                    (case numeric_cast 10 2 (current_balance self) of
                       Inl e \<Rightarrow> Inl e
                     | Inr b \<Rightarrow>
                         Inr (self\<lparr>amount := a, loan_term := t, interest_rate := r,
                                   current_balance := b\<rparr>)))))"

text \<open>\<^verbatim>\<open>Loan.save\<close>: \<^verbatim>\<open>INSERT ... RETURNING loan_id\<close> for a new object, otherwise an
  \<^verbatim>\<open>UPDATE\<close> that sets every column but \<^verbatim>\<open>loan_id\<close> of the row with the object's id
  from the object. The object keeps its own values; the row gets the converted ones.\<close>

definition Loan_save :: "Loan \<Rightarrow> database \<Rightarrow> py_exception + Loan \<times> database" where
  "Loan_save self d =
     (case loans_row self of
        Inl e \<Rightarrow> Inl e
      | Inr row \<Rightarrow>
          if loan_id self = None then
            (let new_id = loans_loan_id_seq d in
               Inr (self\<lparr>loan_id := Some new_id\<rparr>,
                    d\<lparr>loans := loans d @ [row\<lparr>loan_id := Some new_id\<rparr>],
                      loans_loan_id_seq := new_id + 1\<rparr>))
          else
            Inr (self,
                 d\<lparr>loans := map (\<lambda>r. if loan_id r = loan_id self then row else r) (loans d)\<rparr>))"

definition Loan_get_by_id :: "database \<Rightarrow> int \<Rightarrow> Loan option" where
  "Loan_get_by_id d lid = find (\<lambda>r. loan_id r = Some lid) (loans d)"

text \<open>\<^verbatim>\<open>SELECT * FROM loans WHERE user_id = %s ORDER BY created_at DESC\<close>; the comparison
  with a null id selects nothing.\<close>

definition Loan_get_user_loans :: "database \<Rightarrow> int option \<Rightarrow> Loan list" where
  "Loan_get_user_loans d uid =
     order_by_desc loan_created_at
       (filter (\<lambda>r. uid \<noteq> None \<and> loan_user_id r = uid) (loans d))"

subsection \<open>Class \<^verbatim>\<open>Payment\<close>\<close>

definition Payment_create :: "int option \<Rightarrow> pyfloat \<Rightarrow> datetime \<Rightarrow> Payment" where
  "Payment_create lid amt now =
     \<lparr>payment_id = None, payment_loan_id = lid, payment_amount = amt, payment_date = now\<rparr>"

text \<open>The values of a payment object as the columns of \<^verbatim>\<open>payments\<close> take them:
  \<^verbatim>\<open>amount DECIMAL(10, 2)\<close>.\<close>

definition payments_row :: "Payment \<Rightarrow> py_exception + Payment" where
  "payments_row self =
     (case numeric_cast 10 2 (payment_amount self) of
        Inl e \<Rightarrow> Inl e
      | Inr a \<Rightarrow> Inr (self\<lparr>payment_amount := a\<rparr>))"

definition Payment_save :: "Payment \<Rightarrow> database \<Rightarrow> py_exception + Payment \<times> database" where
  "Payment_save self d =
     (case payments_row self of
        Inl e \<Rightarrow> Inl e
      | Inr row \<Rightarrow>
          if payment_id self = None then
            (let new_id = payments_payment_id_seq d in
               Inr (self\<lparr>payment_id := Some new_id\<rparr>,
                    d\<lparr>payments := payments d @ [row\<lparr>payment_id := Some new_id\<rparr>],
                      payments_payment_id_seq := new_id + 1\<rparr>))
          else
            Inr (self,
                 d\<lparr>payments := map (\<lambda>r. if payment_id r = payment_id self then row else r)
                                     (payments d)\<rparr>))"

text \<open>\<^verbatim>\<open>SELECT * FROM payments WHERE loan_id = %s ORDER BY payment_date DESC\<close>.\<close>

definition Payment_get_loan_payments :: "database \<Rightarrow> int option \<Rightarrow> Payment list" where
  "Payment_get_loan_payments d lid =
     order_by_desc payment_date
       (filter (\<lambda>r. lid \<noteq> None \<and> payment_loan_id r = lid) (payments d))"

text \<open>\<^verbatim>\<open>Loan.make_payment(self, db, amount)\<close>: the two checks, then three statements, each
  committed on its own: the balance, the payment row, and the status when the balance of
  the object is zero. The result is the returned pair or the exception raised, the
  object \<^verbatim>\<open>self\<close> after the call and the database after the call.\<close>

definition Loan_make_payment ::
  "Loan \<Rightarrow> pyfloat \<Rightarrow> datetime \<Rightarrow> database
     \<Rightarrow> (py_exception + bool \<times> string) \<times> Loan \<times> database" where
  "Loan_make_payment self amt now d =
     (if float_le amt (Finite 0) then (Inr (False, ''Payment amount must be positive''), self, d)
      else if float_gt amt (current_balance self) then
        (Inr (False, ''Payment exceeds current balance''), self, d)
      else
        (let self1 = self\<lparr>current_balance := float_sub (current_balance self) amt\<rparr> in
           case Loan_save self1 d of
             Inl e \<Rightarrow> (Inl e, self1, d)
           | Inr (self2, d1) \<Rightarrow>
               (case Payment_save (Payment_create (loan_id self2) amt now) d1 of
                  Inl e \<Rightarrow> (Inl e, self2, d1)
                | Inr (p, d2) \<Rightarrow>
                    if float_eq (current_balance self2) (Finite 0) then
                      (let self3 = self2\<lparr>status := ''paid''\<rparr> in
                         case Loan_save self3 d2 of
                           Inl e \<Rightarrow> (Inl e, self3, d2)
                         | Inr (self4, d3) \<Rightarrow> (Inr (True, ''Payment successful''), self4, d3))
                    else (Inr (True, ''Payment successful''), self2, d2))))"

subsection \<open>Class \<^verbatim>\<open>LoanApplicationSystem\<close>\<close>

record LoanApplicationSystem =
  db :: database
  current_user :: "User option"

text \<open>\<^verbatim>\<open>_initialize_database\<close>: when the table \<^verbatim>\<open>users\<close> does not exist (\<open>None\<close>), the
  three tables are created empty and the administrator is saved; an existing database is
  left as it is.\<close>

definition empty_tables :: database where
  "empty_tables =
     \<lparr>users = [], loans = [], payments = [],
      users_user_id_seq = 1, loans_loan_id_seq = 1, payments_payment_id_seq = 1\<rparr>"

definition initialize_database :: "database option \<Rightarrow> string \<Rightarrow> datetime \<Rightarrow> database" where
  "initialize_database existing admin_hash now =
     (case existing of
        Some d \<Rightarrow> d
      | None \<Rightarrow> snd (User_save (User_create ''admin'' admin_hash True) now empty_tables))"

definition LoanApplicationSystem_init ::
  "database option \<Rightarrow> string \<Rightarrow> datetime \<Rightarrow> LoanApplicationSystem" where
  "LoanApplicationSystem_init existing admin_hash now =
     \<lparr>db = initialize_database existing admin_hash now, current_user = None\<rparr>"

text \<open>The line of the main block for an exception that left \<^verbatim>\<open>run\<close>.\<close>

definition error_line :: string where
  "error_line = ''An error occurred''"

text \<open>\<^verbatim>\<open>login\<close>: \<open>pw_ok\<close> is the verdict of \<^verbatim>\<open>user.verify_password(password)\<close>.\<close>

definition login :: "string \<Rightarrow> bool \<Rightarrow> LoanApplicationSystem \<Rightarrow> bool \<times> LoanApplicationSystem" where
  "login name pw_ok s =
     (case User_get_by_username (db s) name of
        Some user \<Rightarrow> if pw_ok then (True, s\<lparr>current_user := Some user\<rparr>) else (False, s)
      | None \<Rightarrow> (False, s))"

definition register ::
  "string \<Rightarrow> string \<Rightarrow> string \<Rightarrow> string \<Rightarrow> datetime \<Rightarrow> LoanApplicationSystem
     \<Rightarrow> bool \<times> LoanApplicationSystem" where
  "register name password confirm_password pw_hash now s =
     (if User_get_by_username (db s) name \<noteq> None then (False, s)
      else if password \<noteq> confirm_password then (False, s)
      else (True, s\<lparr>db := snd (User_save (User_create name pw_hash False) now (db s))\<rparr>))"

text \<open>\<^verbatim>\<open>apply_for_loan\<close>. The only checks are the login and the two conversions
  \<^verbatim>\<open>float(input(...))\<close> and \<^verbatim>\<open>int(input(...))\<close>; only \<^verbatim>\<open>ValueError\<close> is caught, so
  the \<^verbatim>\<open>OverflowError\<close> of \<^verbatim>\<open>term / 12\<close> and the error of the \<^verbatim>\<open>INSERT\<close> leave the
  method.\<close>

definition apply_for_loan ::
  "pyfloat option \<Rightarrow> int option \<Rightarrow> datetime \<Rightarrow> LoanApplicationSystem
     \<Rightarrow> string \<times> LoanApplicationSystem" where
  "apply_for_loan amount_in term_in now s =
     (case current_user s of
        None \<Rightarrow> (''Please login first.'', s)
      | Some user \<Rightarrow>
          (case amount_in of
             None \<Rightarrow> (''Invalid input. Please enter numbers only.'', s)
           | Some amt \<Rightarrow>
               (case term_in of
                  None \<Rightarrow> (''Invalid input. Please enter numbers only.'', s)
                | Some trm \<Rightarrow>
                    (case int_truediv trm 12 of
                       Inl e \<Rightarrow> (error_line, s)
                     | Inr years \<Rightarrow>
                         (let rate = py_min (float_add (Finite 5) years) (Finite 15);
                              loan = \<lparr>loan_id = None, loan_user_id = user_id user, amount = amt,
                                      loan_term = trm, interest_rate = rate,
                                      status = ''pending'', loan_created_at = now,
                                      current_balance = amt\<rparr>
                          in case Loan_save loan (db s) of
                               Inl e \<Rightarrow> (error_line, s)
                             | Inr (loan', d') \<Rightarrow>
                                 (''Loan application submitted successfully!'',
                                  s\<lparr>db := d'\<rparr>))))))"

text \<open>\<^verbatim>\<open>make_payment\<close> in its two parts: the user's loans are read and listed, then the
  program waits at the prompts, then it pays on the object it read before the prompt.
  Only \<^verbatim>\<open>ValueError\<close> is caught.\<close>

definition make_payment_select :: "LoanApplicationSystem \<Rightarrow> string + Loan list" where
  "make_payment_select s =
     (case current_user s of
        None \<Rightarrow> Inl ''Please login first.''
      | Some user \<Rightarrow>
          (let user_loans = Loan_get_user_loans (db s) (user_id user)
           in if user_loans = [] then Inl ''You have no active loans.'' else Inr user_loans))"

definition make_payment_pay ::
  "Loan list \<Rightarrow> int option \<Rightarrow> pyfloat option \<Rightarrow> datetime \<Rightarrow> database \<Rightarrow> string \<times> database" where
  "make_payment_pay user_loans choice_in amount_in now d =
     (case choice_in of
        None \<Rightarrow> (''Invalid input. Please enter a number.'', d)
      | Some c \<Rightarrow>
          (let choice = c - 1 in
             if 0 \<le> choice \<and> choice < int (length user_loans) then
               (let loan = user_loans ! nat choice in
                  if status loan \<noteq> ''approved'' then
                    (''This loan is not approved for payment.'', d)
                  else
                    (case amount_in of
                       None \<Rightarrow> (''Invalid input. Please enter a number.'', d)
                     | Some amt \<Rightarrow>
                         (case Loan_make_payment loan amt now d of
                            (Inl e, loan', d') \<Rightarrow> (error_line, d')
                          | (Inr (success, message), loan', d') \<Rightarrow> (message, d'))))
             else (''Invalid selection.'', d)))"

definition make_payment ::
  "int option \<Rightarrow> pyfloat option \<Rightarrow> datetime \<Rightarrow> LoanApplicationSystem
     \<Rightarrow> string \<times> LoanApplicationSystem" where
  "make_payment choice_in amount_in now s =
     (case make_payment_select s of
        Inl message \<Rightarrow> (message, s)
      | Inr user_loans \<Rightarrow>
          (case make_payment_pay user_loans choice_in amount_in now (db s) of
             (message, d') \<Rightarrow> (message, s\<lparr>db := d'\<rparr>)))"

text \<open>\<^verbatim>\<open>check_balance\<close> and \<^verbatim>\<open>view_payment_history\<close> only read: the listing, or the
  line printed in its place.\<close>

definition check_balance :: "LoanApplicationSystem \<Rightarrow> string + Loan list" where
  "check_balance s =
     (case current_user s of
        None \<Rightarrow> Inl ''Please login first.''
      | Some user \<Rightarrow>
          (let user_loans = Loan_get_user_loans (db s) (user_id user)
           in if user_loans = [] then Inl ''You have no active loans.'' else Inr user_loans))"

definition view_payment_history :: "int option \<Rightarrow> LoanApplicationSystem \<Rightarrow> string + Payment list" where
  "view_payment_history choice_in s =
     (case current_user s of
        None \<Rightarrow> Inl ''Please login first.''
      | Some user \<Rightarrow>
          (let user_loans = Loan_get_user_loans (db s) (user_id user) in
             if user_loans = [] then Inl ''You have no active loans.''
             else
               (case choice_in of
                  None \<Rightarrow> Inl ''Invalid input. Please enter a number.''
                | Some c \<Rightarrow>
                    (let choice = c - 1 in
                       if 0 \<le> choice \<and> choice < int (length user_loans) then
                         (let history = Payment_get_loan_payments (db s)
                                          (loan_id (user_loans ! nat choice))
                          in if history = [] then Inl ''No payments found for this loan.''
                             else Inr history)
                       else Inl ''Invalid selection.''))))"

text \<open>The join \<^verbatim>\<open>FROM loans l JOIN users u ON l.user_id = u.user_id\<close>: each loan row with
  the username of every user row of its \<^verbatim>\<open>user_id\<close>.\<close>

definition loans_join_users :: "database \<Rightarrow> (Loan \<times> string) list" where
  "loans_join_users d =
     concat (map (\<lambda>l. map (\<lambda>u. (l, username u))
                         (filter (\<lambda>u. loan_user_id l \<noteq> None \<and> loan_user_id l = user_id u)
                            (users d)))
               (loans d))"

text \<open>The query of \<^verbatim>\<open>approve_loans\<close>: the join \<^verbatim>\<open>WHERE l.status = 'pending'\<close>, with no
  \<^verbatim>\<open>ORDER BY\<close>.\<close>

definition pending_loans_query :: "database \<Rightarrow> (Loan \<times> string) list" where
  "pending_loans_query d = filter (\<lambda>(l, u). status l = ''pending'') (loans_join_users d)"

text \<open>The query of \<^verbatim>\<open>view_all_loans\<close>: the join \<^verbatim>\<open>ORDER BY l.created_at DESC\<close>.\<close>

definition view_all_loans :: "database \<Rightarrow> (Loan \<times> string) list" where
  "view_all_loans d = order_by_desc (\<lambda>(l, u). loan_created_at l) (loans_join_users d)"

text \<open>\<^verbatim>\<open>UPDATE loans SET status = %s WHERE loan_id = %s\<close>.\<close>

definition update_loan_status :: "string \<Rightarrow> int option \<Rightarrow> database \<Rightarrow> database" where
  "update_loan_status new_status lid d =
     d\<lparr>loans := map (\<lambda>r. if lid \<noteq> None \<and> loan_id r = lid then r\<lparr>status := new_status\<rparr> else r)
                   (loans d)\<rparr>"

text \<open>\<^verbatim>\<open>approve_loans\<close> after its query: \<open>pending_loans\<close> is the list the query returned
  before the prompts, \<open>action\<close> the answer to the second prompt in lower case.\<close>

definition approve_loans_decide ::
  "(Loan \<times> string) list \<Rightarrow> int option \<Rightarrow> string \<Rightarrow> database \<Rightarrow> string \<times> database" where
  "approve_loans_decide pending_loans choice_in action d =
     (if pending_loans = [] then (''No pending loans to approve.'', d)
      else
        (case choice_in of
           None \<Rightarrow> (''Invalid input. Please enter a number.'', d)
         | Some c \<Rightarrow>
             (let choice = c - 1 in
                if 0 \<le> choice \<and> choice < int (length pending_loans) then
                  (let lid = loan_id (fst (pending_loans ! nat choice)) in
                     if action = ''a'' then
                       (''Loan approved successfully.'', update_loan_status ''approved'' lid d)
                     else if action = ''r'' then
                       (''Loan rejected.'', update_loan_status ''rejected'' lid d)
                     else (''Invalid action.'', d))
                else (''Invalid selection.'', d))))"

definition approve_loans ::
  "int option \<Rightarrow> string \<Rightarrow> LoanApplicationSystem \<Rightarrow> string \<times> LoanApplicationSystem" where
  "approve_loans choice_in action s =
     (case approve_loans_decide (pending_loans_query (db s)) choice_in action (db s) of
        (message, d') \<Rightarrow> (message, s\<lparr>db := d'\<rparr>))"

subsection \<open>The menus\<close>

text \<open>One entry of the administrator's menu, with the answers to its prompts.\<close>

datatype admin_command =
    ApproveLoans "int option" string
  | ViewAllLoans
  | Back
  | InvalidAdminChoice

text \<open>\<^verbatim>\<open>admin_menu\<close>: the loop runs until entry 3.\<close>

fun admin_menu :: "LoanApplicationSystem \<Rightarrow> admin_command list \<Rightarrow> LoanApplicationSystem" where
  "admin_menu s [] = s"
| "admin_menu s (ApproveLoans choice_in action # cs) =
     admin_menu (snd (approve_loans choice_in action s)) cs"
| "admin_menu s (ViewAllLoans # cs) = admin_menu s cs"
| "admin_menu s (Back # cs) = s"
| "admin_menu s (InvalidAdminChoice # cs) = admin_menu s cs"

text \<open>One entry of a main menu, with the answers to its prompts and the clock where the
  method reads it. \<open>AdminFunctions\<close> carries what is typed inside the administrator's
  menu.\<close>

datatype command =
    Login string bool
  | Register string string string string datetime
  | Exit
  | ApplyForLoan "pyfloat option" "int option" datetime
  | MakePayment "int option" "pyfloat option" datetime
  | CheckBalance
  | ViewPaymentHistory "int option"
  | AdminFunctions "admin_command list"
  | Logout
  | InvalidChoice

text \<open>One turn of the loop of \<^verbatim>\<open>run\<close>: the menu shown depends on whether a user is logged
  in and whether that user is an administrator; an entry the menu does not have is the
  branch \<^verbatim>\<open>Invalid choice\<close>.\<close>

definition step :: "LoanApplicationSystem \<Rightarrow> command \<Rightarrow> LoanApplicationSystem" where
  "step s c =
     (case current_user s of
        None \<Rightarrow>
          (case c of
             Login name pw_ok \<Rightarrow> snd (login name pw_ok s)
           | Register name password confirm_password pw_hash now \<Rightarrow>
               snd (register name password confirm_password pw_hash now s)
           | _ \<Rightarrow> s)
      | Some user \<Rightarrow>
          (case c of
             ApplyForLoan amount_in term_in now \<Rightarrow> snd (apply_for_loan amount_in term_in now s)
           | MakePayment choice_in amount_in now \<Rightarrow> snd (make_payment choice_in amount_in now s)
           | CheckBalance \<Rightarrow> s
           | ViewPaymentHistory choice_in \<Rightarrow> s
           | AdminFunctions cs \<Rightarrow> if is_admin user then admin_menu s cs else s
           | Logout \<Rightarrow> s\<lparr>current_user := None\<rparr>
           | _ \<Rightarrow> s))"

text \<open>Whether the turn ends with an exception that leaves \<^verbatim>\<open>run\<close>.\<close>

definition step_raises :: "LoanApplicationSystem \<Rightarrow> command \<Rightarrow> bool" where
  "step_raises s c =
     (case current_user s of
        None \<Rightarrow> False
      | Some user \<Rightarrow>
          (case c of
             ApplyForLoan amount_in term_in now \<Rightarrow>
               fst (apply_for_loan amount_in term_in now s) = error_line
           | MakePayment choice_in amount_in now \<Rightarrow>
               fst (make_payment choice_in amount_in now s) = error_line
           | _ \<Rightarrow> False))"

text \<open>\<^verbatim>\<open>run\<close>: the loop ends at entry 3 of the menu shown to a visitor, or with the
  first exception.\<close>

fun run :: "LoanApplicationSystem \<Rightarrow> command list \<Rightarrow> LoanApplicationSystem" where
  "run s [] = s"
| "run s (c # cs) =
     (if current_user s = None \<and> c = Exit then s
      else if step_raises s c then step s c
      else run (step s c) cs)"

subsection \<open>Notions used to state the properties\<close>

text \<open>The constraints the schema of \<^verbatim>\<open>_initialize_database\<close> puts on the two ledger
  tables: \<^verbatim>\<open>loan_id SERIAL PRIMARY KEY\<close> (no two rows share an id, every id was drawn
  from the sequence), \<^verbatim>\<open>loan_id INTEGER REFERENCES loans(loan_id)\<close> on payments, and
  the types of the columns (every stored value is a value of its column, which the
  conversion leaves as it is).\<close>

fun drawn_below :: "int option \<Rightarrow> int \<Rightarrow> bool" where
  "drawn_below None n \<longleftrightarrow> False"
| "drawn_below (Some k) n \<longleftrightarrow> k < n"

definition store_constraints :: "database \<Rightarrow> bool" where
  "store_constraints d \<longleftrightarrow>
     distinct (map loan_id (loans d)) \<and>
     (\<forall>l \<in> set (loans d). drawn_below (loan_id l) (loans_loan_id_seq d) \<and> loans_row l = Inr l) \<and>
     (\<forall>p \<in> set (payments d).
        payment_loan_id p \<in> set (map loan_id (loans d)) \<and> payments_row p = Inr p)"

text \<open>A number with at most two fractional digits, and a float that is such a number.\<close>

definition is_cents :: "rat \<Rightarrow> bool" where
  "is_cents x \<longleftrightarrow> of_int \<lfloor>x * 100\<rfloor> = x * 100"





text \<open>One move along \<^verbatim>\<open>pending -> approved -> paid\<close> or \<^verbatim>\<open>pending -> rejected\<close>, or no
  move.\<close>

definition status_path :: "string \<Rightarrow> string \<Rightarrow> bool" where
  "status_path old new \<longleftrightarrow>
     new = old \<or>
     (old = ''pending'' \<and> (new = ''approved'' \<or> new = ''rejected'')) \<or>
     (old = ''approved'' \<and> new = ''paid'')"

text \<open>The loan object \<^verbatim>\<open>loans[choice]\<close> that \<^verbatim>\<open>make_payment\<close> pays on: the entry of
  the listing that the answer to the first prompt selects, if there is one.\<close>

definition selected_loan :: "LoanApplicationSystem \<Rightarrow> int option \<Rightarrow> Loan option" where
  "selected_loan s choice_in =
     (case make_payment_select s of
        Inl message \<Rightarrow> None
      | Inr user_loans \<Rightarrow>
          (case choice_in of
             None \<Rightarrow> None
           | Some c \<Rightarrow>
               if 0 \<le> c - 1 \<and> c - 1 < int (length user_loans)
               then Some (user_loans ! nat (c - 1)) else None))"

text \<open>The checks a payment passes, one after the other: a loan is selected, it is
  approved, the amount is accepted by \<^verbatim>\<open>float\<close>, and neither \<^verbatim>\<open>amount <= 0\<close> nor
  \<^verbatim>\<open>amount > self.current_balance\<close> holds.\<close>

definition payable :: "LoanApplicationSystem \<Rightarrow> int option \<Rightarrow> pyfloat option \<Rightarrow> bool" where
  "payable s choice_in amount_in \<longleftrightarrow>
     (\<exists>loan amt. selected_loan s choice_in = Some loan \<and> status loan = ''approved''
        \<and> amount_in = Some amt \<and> \<not> float_le amt (Finite 0)
        \<and> \<not> float_gt amt (current_balance loan))"


text \<open>What holds of the ledger tables in every state the program reaches, whatever is
  typed (shown below): the constraints of the schema, one of the four statuses on every
  loan, and the rate of its term, as the column \<^verbatim>\<open>interest_rate\<close> takes it.\<close>

definition schema_inv :: "database \<Rightarrow> bool" where
  "schema_inv d \<longleftrightarrow>
     store_constraints d \<and>
     (\<forall>l \<in> set (loans d).
        (status l = ''pending'' \<or> status l = ''approved'' \<or> status l = ''rejected'' \<or>
         status l = ''paid'') \<and>
        numeric_cast 5 2 (Finite (min (5 + of_int (loan_term l) / 12) 15)) =
          Inr (interest_rate l))"



text \<open>How the table \<^verbatim>\<open>loans\<close> may differ between two states: every old row keeps its
  place, its id, owner, principal, term, rate and creation time, and its status makes at
  most one move; every new row is a pending loan whose balance is its principal.\<close>

definition loans_evolve :: "database \<Rightarrow> database \<Rightarrow> bool" where
  "loans_evolve d d' \<longleftrightarrow>
     length (loans d) \<le> length (loans d') \<and>
     (\<forall>i < length (loans d).
        loan_id (loans d' ! i) = loan_id (loans d ! i) \<and>
        loan_user_id (loans d' ! i) = loan_user_id (loans d ! i) \<and>
        amount (loans d' ! i) = amount (loans d ! i) \<and>
        loan_term (loans d' ! i) = loan_term (loans d ! i) \<and>
        interest_rate (loans d' ! i) = interest_rate (loans d ! i) \<and>
        loan_created_at (loans d' ! i) = loan_created_at (loans d ! i) \<and>
        status_path (status (loans d ! i)) (status (loans d' ! i))) \<and>
     (\<forall>i < length (loans d'). length (loans d) \<le> i \<longrightarrow>
        status (loans d' ! i) = ''pending'' \<and>
        current_balance (loans d' ! i) = amount (loans d' ! i))"


text \<open>The effect of the administrator's menu on \<^verbatim>\<open>loans\<close>: a row is left as it is, or a
  pending row has its status set to \<^verbatim>\<open>approved\<close> or \<^verbatim>\<open>rejected\<close>.\<close>

definition loans_decided :: "database \<Rightarrow> database \<Rightarrow> bool" where
  "loans_decided d d' \<longleftrightarrow>
     length (loans d') = length (loans d) \<and>
     (\<forall>i < length (loans d).
        loans d' ! i = loans d ! i \<or>
        (status (loans d ! i) = ''pending'' \<and>
         (loans d' ! i = (loans d ! i)\<lparr>status := ''approved''\<rparr> \<or>
          loans d' ! i = (loans d ! i)\<lparr>status := ''rejected''\<rparr>)))"

subsection \<open>Example sessions\<close>

text \<open>A fresh database, the customer \<^verbatim>\<open>alice\<close> registered and logged in, and her session
  once her loan of \<open>p0\<close> over 24 months has been approved by the administrator.\<close>

definition fresh_system :: LoanApplicationSystem where
  "fresh_system = LoanApplicationSystem_init None ''hash0'' 0"

definition alice :: User where
  "alice = \<lparr>user_id = Some 2, username = ''alice'', password_hash = ''hash1'',
             is_admin = False, user_created_at = Some 1\<rparr>"

definition alice_session :: LoanApplicationSystem where
  "alice_session =
     run fresh_system [Register ''alice'' ''pw'' ''pw'' ''hash1'' 1, Login ''alice'' True]"

text \<open>What is typed until a loan of \<open>p0\<close> that \<^verbatim>\<open>alice\<close> applies for is approved and she
  is logged in again.\<close>

definition approval_script :: "pyfloat \<Rightarrow> command list" where
  "approval_script p0 =
     [Register ''alice'' ''pw'' ''pw'' ''hash1'' 1, Login ''alice'' True,
      ApplyForLoan (Some p0) (Some 24) 2, Logout, Login ''admin'' True,
      AdminFunctions [ApproveLoans (Some 1) ''a'', Back], Logout, Login ''alice'' True]"

definition approved_session :: "pyfloat \<Rightarrow> LoanApplicationSystem" where
  "approved_session p0 = run fresh_system (approval_script p0)"

text \<open>The row of that loan once approved, for a principal that the column holds as it
  is; it is also the object her session reads.\<close>

definition approved_loan :: "pyfloat \<Rightarrow> Loan" where
  "approved_loan p0 =
     \<lparr>loan_id = Some 1, loan_user_id = Some 2, amount = p0, loan_term = 24,
      interest_rate = Finite 7, status = ''approved'', loan_created_at = 2,
      current_balance = p0\<rparr>"

text \<open>Her session after she applied for 100, before any decision.\<close>

definition applied_session :: LoanApplicationSystem where
  "applied_session = run fresh_system (take 3 (approval_script (Finite 100)))"

text \<open>Her session after a first payment of 40 on the approved loan of 100.\<close>

definition paying_session :: LoanApplicationSystem where
  "paying_session =
     run fresh_system
       (approval_script (Finite 100) @ [MakePayment (Some 1) (Some (Finite 40)) 3])"

text \<open>Her session after she paid the approved loan of 100 off in one payment.\<close>

definition paid_session :: LoanApplicationSystem where
  "paid_session =
     run fresh_system
       (approval_script (Finite 100) @ [MakePayment (Some 1) (Some (Finite 100)) 3])"

text \<open>The database with the one row of \<^verbatim>\<open>loans\<close> and the rows of \<^verbatim>\<open>payments\<close> given,
  as her sessions find it.\<close>

definition alice_ledger :: "Loan \<Rightarrow> Payment list \<Rightarrow> database" where
  "alice_ledger l ps =
     \<lparr>users = [\<lparr>user_id = Some 1, username = ''admin'', password_hash = ''hash0'',
                 is_admin = True, user_created_at = Some 0\<rparr>, alice],
      loans = [l], payments = ps,
      users_user_id_seq = 3, loans_loan_id_seq = 2,
      payments_payment_id_seq = 1 + int (length ps)\<rparr>"

section \<open>Properties\<close>

subsection \<open>Numbers\<close>

lemma floor_rat_numeral:
  "\<lfloor>(numeral a :: rat) / numeral b\<rfloor> = numeral a div numeral b"
  "\<lfloor>- (numeral a :: rat) / numeral b\<rfloor> = - numeral a div numeral b"
  "\<lfloor>(1 :: rat) / numeral b\<rfloor> = 1 div numeral b"
  using floor_divide_of_int_eq [of "numeral a" "numeral b", where ?'a = rat]
    floor_divide_of_int_eq [of "- numeral a" "numeral b", where ?'a = rat]
    floor_divide_of_int_eq [of 1 "numeral b", where ?'a = rat]
  by simp_all

lemma abs_of_int_less: "\<bar>rat_of_int n\<bar> < of_int m \<longleftrightarrow> \<bar>n\<bar> < m"
  by (simp flip: of_int_abs)

lemma abs_of_int_le: "\<bar>rat_of_int n\<bar> \<le> of_int m \<longleftrightarrow> \<bar>n\<bar> \<le> m"
  by (simp flip: of_int_abs)

lemma round_half_away_of_int: "round_half_away (of_int n) = n"
proof (cases "0 \<le> n")
  case True
  have "\<lfloor>rat_of_int n + 1 / 2\<rfloor> = n" by linarith
  with True show ?thesis by (simp add: round_half_away_def)
next
  case False
  have "\<lfloor>- rat_of_int n + 1 / 2\<rfloor> = - n" by linarith
  with False show ?thesis by (simp add: round_half_away_def)
qed

lemma is_cents_iff: "is_cents x \<longleftrightarrow> (\<exists>n. x * 100 = of_int n)"
  unfolding is_cents_def by (metis floor_of_int)

lemma is_cents_diff:
  assumes "is_cents x" "is_cents y"
  shows "is_cents (x - y)"
proof -
  from assms obtain m n where "x * 100 = of_int m" "y * 100 = of_int n"
    unfolding is_cents_iff by blast
  then have "(x - y) * 100 = of_int (m - n)"
    by (simp add: algebra_simps)
  then show ?thesis
    unfolding is_cents_iff by blast
qed

lemma numeric_cast_idem:
  assumes "numeric_cast precision scale v = Inr w"
  shows "numeric_cast precision scale w = Inr w"
proof (cases v)
  case (Finite x)
  define n where "n = round_half_away (x * 10 ^ scale)"
  from assms Finite have small: "\<not> 10 ^ precision \<le> \<bar>n\<bar>"
    and w: "w = Finite (of_int n / 10 ^ scale)"
    by (auto simp add: numeric_cast_def Let_def n_def split: if_splits)
  have "round_half_away (of_int n / 10 ^ scale * 10 ^ scale) = n"
    by (simp add: round_half_away_of_int)
  with small show ?thesis
    by (simp add: numeric_cast_def w Let_def)
qed (use assms in \<open>auto simp add: numeric_cast_def\<close>)

lemma numeric_cast_cents:
  assumes "is_cents x" "\<bar>x\<bar> < 10 ^ 8"
  shows "numeric_cast 10 2 (Finite x) = Inr (Finite x)"
proof -
  from assms(1) obtain n where n: "x * 100 = of_int n"
    unfolding is_cents_iff by blast
  then have x: "x = of_int n / 100" by simp
  from assms(2) have "\<bar>x * 100\<bar> < 10 ^ 10"
    by (simp add: abs_mult)
  then have "\<bar>rat_of_int n\<bar> < 10 ^ 10"
    by (simp add: n)
  then have "\<bar>n\<bar> < 10 ^ 10"
    using abs_of_int_less [of n "10 ^ 10"] by simp
  then show ?thesis
    by (simp add: numeric_cast_def Let_def n round_half_away_of_int x)
qed

lemma stored_numeric_cases:
  assumes "numeric_cast 10 2 v = Inr v"
  shows "v = NaN \<or> (\<exists>x. v = Finite x \<and> is_cents x \<and> \<bar>x\<bar> < 10 ^ 8)"
proof (cases v)
  case (Finite x)
  define n where "n = round_half_away (x * 10 ^ 2)"
  from assms Finite have small: "\<not> 10 ^ 10 \<le> \<bar>n\<bar>" and x: "x = of_int n / 10 ^ 2"
    by (auto simp add: numeric_cast_def Let_def n_def split: if_splits)
  from x have "x * 100 = of_int n" by simp
  then have "is_cents x"
    unfolding is_cents_iff by blast
  moreover from small have "\<bar>rat_of_int n\<bar> < 10 ^ 10"
    using abs_of_int_less [of n "10 ^ 10"] by simp
  then have "\<bar>x\<bar> < 10 ^ 8"
    unfolding x by (simp add: abs_divide)
  ultimately show ?thesis
    using Finite by simp
qed (use assms in \<open>auto simp add: numeric_cast_def\<close>)


lemma numeric_cast_error: "numeric_cast precision scale v = Inl e \<Longrightarrow> e = DataError"
  by (cases v) (auto simp add: numeric_cast_def Let_def split: if_splits)

lemma int_truediv_term:
  assumes "\<bar>trm\<bar> \<le> 2 ^ 31"
  shows "int_truediv trm 12 = Inr (Finite (of_int trm / 12))"
proof -
  have "\<bar>rat_of_int trm / 12\<bar> \<le> \<bar>rat_of_int trm\<bar>"
    by (simp add: abs_divide)
  also from assms have "\<bar>rat_of_int trm\<bar> \<le> 2 ^ 31"
    using abs_of_int_le [of trm "2 ^ 31"] by simp
  also have "(2::rat) ^ 31 < float_overflow"
    by (simp add: float_overflow_def)
  finally show ?thesis
    by (simp add: int_truediv_def)
qed

subsection \<open>Evaluation\<close>

lemmas number_defs =
  round_half_away_def numeric_cast_def integer_cast_def float_le_def float_gt_def
  float_sub_def py_min_def floor_rat_numeral is_cents_def

lemmas entity_defs =
  User_create_def User_save_def User_get_by_username_def loans_row_def Loan_save_def
  Loan_get_by_id_def Loan_get_user_loans_def Payment_create_def payments_row_def
  Payment_save_def Payment_get_loan_payments_def Loan_make_payment_def order_by_desc_def
  Let_def

lemmas system_defs =
  LoanApplicationSystem_init_def initialize_database_def empty_tables_def login_def
  register_def apply_for_loan_def make_payment_select_def make_payment_pay_def
  make_payment_def loans_join_users_def pending_loans_query_def update_loan_status_def
  approve_loans_decide_def approve_loans_def step_def step_raises_def error_line_def

lemmas example_defs =
  fresh_system_def alice_def alice_session_def approval_script_def approved_session_def
  applied_session_def paying_session_def paid_session_def approved_loan_def
  alice_ledger_def

lemma int_truediv_numeral:
  "int_truediv 24 12 = Inr (Finite 2)"
  "int_truediv 12 12 = Inr (Finite 1)"
  "int_truediv 144 12 = Inr (Finite 12)"
  "int_truediv 0 12 = Inr (Finite 0)"
  "int_truediv 1 12 = Inr (Finite (1 / 12))"
  by (simp_all add: int_truediv_term)

lemma alice_session_eq:
  "alice_session =
     \<lparr>db = \<lparr>users = [\<lparr>user_id = Some 1, username = ''admin'', password_hash = ''hash0'',
                       is_admin = True, user_created_at = Some 0\<rparr>, alice],
             loans = [], payments = [],
             users_user_id_seq = 3, loans_loan_id_seq = 1, payments_payment_id_seq = 1\<rparr>,
      current_user = Some alice\<rparr>"
  by (simp add: example_defs system_defs entity_defs)

lemma approved_session_eq:
  assumes "numeric_cast 10 2 p0 = Inr p0"
  shows "approved_session p0 =
     \<lparr>db = alice_ledger (approved_loan p0) [], current_user = Some alice\<rparr>"
  using assms
  by (simp add: example_defs system_defs entity_defs int_truediv_numeral number_defs)

lemma stored_100: "numeric_cast 10 2 (Finite 100) = Inr (Finite 100)"
  by (simp add: number_defs)


lemma applied_session_eq:
  "applied_session =
     \<lparr>db = alice_ledger ((approved_loan (Finite 100))\<lparr>status := ''pending''\<rparr>) [],
      current_user = Some alice\<rparr>"
  by (simp add: example_defs system_defs entity_defs int_truediv_numeral number_defs)

lemma paying_session_eq:
  "paying_session =
     \<lparr>db = alice_ledger ((approved_loan (Finite 100))\<lparr>current_balance := Finite 60\<rparr>)
             [\<lparr>payment_id = Some 1, payment_loan_id = Some 1, payment_amount = Finite 40,
               payment_date = 3\<rparr>],
      current_user = Some alice\<rparr>"
  by (simp add: example_defs system_defs entity_defs int_truediv_numeral number_defs)

lemma paid_session_eq:
  "paid_session =
     \<lparr>db = alice_ledger
             ((approved_loan (Finite 100))\<lparr>status := ''paid'', current_balance := Finite 0\<rparr>)
             [\<lparr>payment_id = Some 1, payment_loan_id = Some 1, payment_amount = Finite 100,
               payment_date = 3\<rparr>],
      current_user = Some alice\<rparr>"
  by (simp add: example_defs system_defs entity_defs int_truediv_numeral number_defs)

lemma approved_session_reached:
  "approved_session p0 = run (LoanApplicationSystem_init None ''hash0'' 0) (approval_script p0)"
  by (simp add: approved_session_def fresh_system_def)

lemma applied_session_reached:
  "applied_session =
     run (LoanApplicationSystem_init None ''hash0'' 0) (take 3 (approval_script (Finite 100)))"
  by (simp add: applied_session_def fresh_system_def)

lemma paying_session_reached:
  "paying_session =
     run (LoanApplicationSystem_init None ''hash0'' 0)
       (approval_script (Finite 100) @ [MakePayment (Some 1) (Some (Finite 40)) 3])"
  by (simp add: paying_session_def fresh_system_def)

lemma paid_session_reached:
  "paid_session =
     run (LoanApplicationSystem_init None ''hash0'' 0)
       (approval_script (Finite 100) @ [MakePayment (Some 1) (Some (Finite 100)) 3])"
  by (simp add: paid_session_def fresh_system_def)

subsection \<open>Sorting\<close>

lemma set_order_by_desc: "set (order_by_desc key rows) = set rows"
  by (simp add: order_by_desc_def)

lemma length_order_by_desc: "length (order_by_desc key rows) = length rows"
  by (simp add: order_by_desc_def)

lemma mset_order_by_desc: "mset (order_by_desc key rows) = mset rows"
  by (simp add: order_by_desc_def)

lemma sorted_order_by_desc:
  "sorted_wrt (\<lambda>a b. key b \<le> key a) (order_by_desc key rows)"
proof -
  have "sorted (map (\<lambda>r. - key r) (order_by_desc key rows))"
    by (simp add: order_by_desc_def)
  then show ?thesis
    by (simp add: sorted_wrt_map)
qed

lemma insort_key_map:
  assumes "\<And>x. key (f x) = key x"
  shows "insort_key key (f x) (map f xs) = map f (insort_key key x xs)"
  by (induction xs) (simp_all add: assms)

lemma sort_key_map:
  assumes "\<And>x. key (f x) = key x"
  shows "sort_key key (map f xs) = map f (sort_key key xs)"
  by (induction xs) (simp_all add: insort_key_map [of key f, OF assms])


subsection \<open>Payments of a loan\<close>






subsection \<open>Rows and columns\<close>

lemma integer_cast_Inr: "integer_cast n = Inr m \<Longrightarrow> m = n"
  by (simp add: integer_cast_def split: if_splits)

lemma loans_row_Inr:
  assumes "loans_row self = Inr row"
  shows "\<exists>a r b. numeric_cast 10 2 (amount self) = Inr a
           \<and> integer_cast (loan_term self) = Inr (loan_term self)
           \<and> numeric_cast 5 2 (interest_rate self) = Inr r
           \<and> numeric_cast 10 2 (current_balance self) = Inr b
           \<and> row = self\<lparr>amount := a, interest_rate := r, current_balance := b\<rparr>"
proof -
  from assms obtain a t r b where a: "numeric_cast 10 2 (amount self) = Inr a"
    and t: "integer_cast (loan_term self) = Inr t"
    and r: "numeric_cast 5 2 (interest_rate self) = Inr r"
    and b: "numeric_cast 10 2 (current_balance self) = Inr b"
    and row: "row = self\<lparr>amount := a, loan_term := t, interest_rate := r, current_balance := b\<rparr>"
    by (auto simp add: loans_row_def split: sum.splits)
  from t have "t = loan_term self" by (rule integer_cast_Inr)
  with a t r b row show ?thesis by simp
qed

lemma loans_row_stored_iff:
  "loans_row l = Inr l \<longleftrightarrow>
     numeric_cast 10 2 (amount l) = Inr (amount l)
     \<and> integer_cast (loan_term l) = Inr (loan_term l)
     \<and> numeric_cast 5 2 (interest_rate l) = Inr (interest_rate l)
     \<and> numeric_cast 10 2 (current_balance l) = Inr (current_balance l)"
proof
  assume "loans_row l = Inr l"
  from loans_row_Inr [OF this] obtain a r b where
    casts: "numeric_cast 10 2 (amount l) = Inr a"
      "integer_cast (loan_term l) = Inr (loan_term l)"
      "numeric_cast 5 2 (interest_rate l) = Inr r"
      "numeric_cast 10 2 (current_balance l) = Inr b"
    and l: "l = l\<lparr>amount := a, interest_rate := r, current_balance := b\<rparr>"
    by blast
  from l have "amount l = amount (l\<lparr>amount := a, interest_rate := r, current_balance := b\<rparr>)"
    and "interest_rate l =
      interest_rate (l\<lparr>amount := a, interest_rate := r, current_balance := b\<rparr>)"
    and "current_balance l =
      current_balance (l\<lparr>amount := a, interest_rate := r, current_balance := b\<rparr>)"
    by simp_all
  then have "a = amount l" "r = interest_rate l" "b = current_balance l"
    by simp_all
  with casts show "numeric_cast 10 2 (amount l) = Inr (amount l)
     \<and> integer_cast (loan_term l) = Inr (loan_term l)
     \<and> numeric_cast 5 2 (interest_rate l) = Inr (interest_rate l)
     \<and> numeric_cast 10 2 (current_balance l) = Inr (current_balance l)"
    by simp
next
  assume "numeric_cast 10 2 (amount l) = Inr (amount l)
     \<and> integer_cast (loan_term l) = Inr (loan_term l)
     \<and> numeric_cast 5 2 (interest_rate l) = Inr (interest_rate l)
     \<and> numeric_cast 10 2 (current_balance l) = Inr (current_balance l)"
  then show "loans_row l = Inr l"
    by (simp add: loans_row_def)
qed

lemma loans_row_result_stored:
  assumes "loans_row self = Inr row"
  shows "loans_row row = Inr row"
proof -
  from loans_row_Inr [OF assms] obtain a r b where
    casts: "numeric_cast 10 2 (amount self) = Inr a"
      "integer_cast (loan_term self) = Inr (loan_term self)"
      "numeric_cast 5 2 (interest_rate self) = Inr r"
      "numeric_cast 10 2 (current_balance self) = Inr b"
    and row: "row = self\<lparr>amount := a, interest_rate := r, current_balance := b\<rparr>"
    by blast
  show ?thesis
    unfolding loans_row_stored_iff
    using casts(2) numeric_cast_idem [OF casts(1)] numeric_cast_idem [OF casts(3)]
      numeric_cast_idem [OF casts(4)]
    by (simp add: row)
qed

lemma loans_row_balance:
  assumes "loans_row l = Inr l"
  shows "loans_row (l\<lparr>current_balance := v\<rparr>) =
           (case numeric_cast 10 2 v of
              Inl e \<Rightarrow> Inl e
            | Inr b \<Rightarrow> Inr (l\<lparr>current_balance := b\<rparr>))"
  using assms unfolding loans_row_stored_iff
  by (simp add: loans_row_def split: sum.splits)

lemma loans_row_status:
  assumes "loans_row l = Inr row"
  shows "loans_row (l\<lparr>status := st\<rparr>) = Inr (row\<lparr>status := st\<rparr>)"
  using assms by (auto simp add: loans_row_def split: sum.splits)

lemma stored_row_balance:
  assumes "loans_row l = Inr l" "numeric_cast 10 2 b = Inr b"
  shows "loans_row (l\<lparr>current_balance := b, status := st\<rparr>) =
           Inr (l\<lparr>current_balance := b, status := st\<rparr>)"
  using assms unfolding loans_row_stored_iff by simp

lemma payments_row_Inr:
  assumes "payments_row self = Inr row"
  shows "\<exists>a. numeric_cast 10 2 (payment_amount self) = Inr a \<and> row = self\<lparr>payment_amount := a\<rparr>"
  using assms by (auto simp add: payments_row_def split: sum.splits)

lemma payments_row_stored_iff:
  "payments_row p = Inr p \<longleftrightarrow> numeric_cast 10 2 (payment_amount p) = Inr (payment_amount p)"
proof
  assume "payments_row p = Inr p"
  from payments_row_Inr [OF this] obtain a where
    a: "numeric_cast 10 2 (payment_amount p) = Inr a" and p: "p = p\<lparr>payment_amount := a\<rparr>"
    by blast
  from p have "payment_amount p = payment_amount (p\<lparr>payment_amount := a\<rparr>)"
    by simp
  then have "a = payment_amount p" by simp
  with a show "numeric_cast 10 2 (payment_amount p) = Inr (payment_amount p)" by simp
next
  assume "numeric_cast 10 2 (payment_amount p) = Inr (payment_amount p)"
  then show "payments_row p = Inr p"
    by (simp add: payments_row_def)
qed

lemma same_id_same_row:
  assumes "distinct (map loan_id rows)" "x \<in> set rows" "y \<in> set rows" "loan_id x = loan_id y"
  shows "x = y"
  using assms by (meson distinct_map inj_onD)




lemma stored_loan_has_id:
  assumes "store_constraints d" "l \<in> set (loans d)"
  shows "\<exists>k. loan_id l = Some k \<and> k < loans_loan_id_seq d"
proof -
  from assms have "drawn_below (loan_id l) (loans_loan_id_seq d)"
    by (simp add: store_constraints_def)
  then show ?thesis
    by (cases "loan_id l") simp_all
qed

lemma stored_loan_row:
  assumes "store_constraints d" "l \<in> set (loans d)"
  shows "loans_row l = Inr l"
  using assms by (simp add: store_constraints_def)

lemma stored_balance_cases:
  assumes "store_constraints d" "l \<in> set (loans d)"
  shows "current_balance l = NaN
       \<or> (\<exists>b. current_balance l = Finite b \<and> is_cents b \<and> \<bar>b\<bar> < 10 ^ 8)"
proof -
  from stored_loan_row [OF assms]
  have "numeric_cast 10 2 (current_balance l) = Inr (current_balance l)"
    by (simp add: loans_row_stored_iff)
  then show ?thesis by (rule stored_numeric_cases)
qed


lemma user_loans_stored: "l \<in> set (Loan_get_user_loans d uid) \<Longrightarrow> l \<in> set (loans d)"
  by (simp add: Loan_get_user_loans_def set_order_by_desc)

lemma same_row_update:
  assumes "distinct (map loan_id rows)" "loan \<in> set rows" "loan_id loan = Some k"
  shows "map (\<lambda>r. if loan_id r = Some k then f loan else r) rows =
         map (\<lambda>r. if loan_id r = Some k then f r else r) rows"
proof (rule map_cong [OF refl])
  fix r assume r: "r \<in> set rows"
  have "r = loan" if "loan_id r = Some k"
    using assms r that by (simp add: same_id_same_row)
  then show "(if loan_id r = Some k then f loan else r) = (if loan_id r = Some k then f r else r)"
    by simp
qed

subsection \<open>Loan.save and Loan.make_payment\<close>

lemma Loan_save_update:
  assumes "loan_id self = Some k" "loans_row self = Inr row"
  shows "Loan_save self d =
           Inr (self, d\<lparr>loans := map (\<lambda>r. if loan_id r = Some k then row else r) (loans d)\<rparr>)"
  using assms by (simp add: Loan_save_def)

lemma Loan_save_error:
  assumes "loans_row self = Inl e"
  shows "Loan_save self d = Inl e"
  using assms by (simp add: Loan_save_def)

lemma Loan_make_payment_refused:
  assumes "float_le amt (Finite 0) \<or> float_gt amt (current_balance self)"
  shows "Loan_make_payment self amt now d =
           (Inr (False, if float_le amt (Finite 0) then ''Payment amount must be positive''
                        else ''Payment exceeds current balance''), self, d)"
  using assms by (auto simp add: Loan_make_payment_def)

text \<open>The three statements of an accepted payment on an object read from the store.\<close>

lemma Loan_make_payment_checked:
  assumes row: "loans_row self = Inr self" and k: "loan_id self = Some k"
    and pos: "\<not> float_le amt (Finite 0)" and le: "\<not> float_gt amt (current_balance self)"
  shows "Loan_make_payment self amt now d =
     (case numeric_cast 10 2 (float_sub (current_balance self) amt) of
        Inl e \<Rightarrow> (Inl e, self\<lparr>current_balance := float_sub (current_balance self) amt\<rparr>, d)
      | Inr b \<Rightarrow>
          (case numeric_cast 10 2 amt of
             Inl e \<Rightarrow>
               (Inl e, self\<lparr>current_balance := float_sub (current_balance self) amt\<rparr>,
                d\<lparr>loans := map (\<lambda>r. if loan_id r = Some k then self\<lparr>current_balance := b\<rparr> else r)
                              (loans d)\<rparr>)
           | Inr a \<Rightarrow>
               (Inr (True, ''Payment successful''),
                self\<lparr>current_balance := float_sub (current_balance self) amt,
                     status := (if float_eq (float_sub (current_balance self) amt) (Finite 0)
                                then ''paid'' else status self)\<rparr>,
                d\<lparr>loans := map (\<lambda>r. if loan_id r = Some k
                                     then self\<lparr>current_balance := b,
                                               status := (if float_eq (float_sub (current_balance self) amt)
                                                                (Finite 0)
                                                          then ''paid'' else status self)\<rparr>
                                     else r) (loans d),
                  payments := payments d @
                    [\<lparr>payment_id = Some (payments_payment_id_seq d), payment_loan_id = Some k,
                      payment_amount = a, payment_date = now\<rparr>],
                  payments_payment_id_seq := payments_payment_id_seq d + 1\<rparr>)))"
proof -
  define b' where "b' = float_sub (current_balance self) amt"
  have twice: "map (\<lambda>r. if loan_id r = Some k then y else r)
                 (map (\<lambda>r. if loan_id r = Some k then x else r) rows) =
               map (\<lambda>r. if loan_id r = Some k then y else r) rows"
    if "loan_id x = Some k" for x y :: Loan and rows
    using that by (induction rows) simp_all
  show ?thesis
  proof (cases "numeric_cast 10 2 b'")
    case (Inl e)
    then have "loans_row (self\<lparr>current_balance := b'\<rparr>) = Inl e"
      by (simp add: loans_row_balance [OF row])
    then have "Loan_save (self\<lparr>current_balance := b'\<rparr>) d = Inl e"
      by (rule Loan_save_error)
    with pos le Inl show ?thesis
      by (simp add: Loan_make_payment_def Let_def flip: b'_def)
  next
    case (Inr b)
    then have row1: "loans_row (self\<lparr>current_balance := b'\<rparr>) = Inr (self\<lparr>current_balance := b\<rparr>)"
      by (simp add: loans_row_balance [OF row])
    have save1: "Loan_save (self\<lparr>current_balance := b'\<rparr>) d =
        Inr (self\<lparr>current_balance := b'\<rparr>,
             d\<lparr>loans := map (\<lambda>r. if loan_id r = Some k then self\<lparr>current_balance := b\<rparr> else r)
                           (loans d)\<rparr>)"
      by (rule Loan_save_update) (simp_all add: k row1)
    have row3: "loans_row (self\<lparr>current_balance := b', status := ''paid''\<rparr>) =
        Inr (self\<lparr>current_balance := b, status := ''paid''\<rparr>)"
      using loans_row_status [OF row1, of "''paid''"] by simp
    have save3: "Loan_save (self\<lparr>current_balance := b', status := ''paid''\<rparr>) d2 =
        Inr (self\<lparr>current_balance := b', status := ''paid''\<rparr>,
             d2\<lparr>loans := map (\<lambda>r. if loan_id r = Some k
                                  then self\<lparr>current_balance := b, status := ''paid''\<rparr> else r)
                           (loans d2)\<rparr>)" for d2
      by (rule Loan_save_update) (simp_all add: k row3)
    show ?thesis
    proof (cases "numeric_cast 10 2 amt")
      case (Inl e)
      with pos le Inr save1 show ?thesis
        by (simp add: Loan_make_payment_def Let_def Payment_save_def payments_row_def
            Payment_create_def k flip: b'_def)
    next
      case a: (Inr a)
      show ?thesis
      proof (cases "float_eq b' (Finite 0)")
        case True
        with pos le Inr a save1 save3 show ?thesis
          by (simp add: Loan_make_payment_def Let_def Payment_save_def payments_row_def
              Payment_create_def k twice flip: b'_def)
      next
        case False
        with pos le Inr a save1 show ?thesis
          by (simp add: Loan_make_payment_def Let_def Payment_save_def payments_row_def
              Payment_create_def k flip: b'_def)
      qed
    qed
  qed
qed

subsection \<open>make_payment\<close>

lemma selected_loan_SomeD:
  assumes "selected_loan s choice_in = Some loan"
  shows "\<exists>user c. current_user s = Some user \<and> choice_in = Some c \<and> 1 \<le> c
           \<and> c \<le> int (length (Loan_get_user_loans (db s) (user_id user)))
           \<and> loan = Loan_get_user_loans (db s) (user_id user) ! nat (c - 1)
           \<and> make_payment_select s = Inr (Loan_get_user_loans (db s) (user_id user))"
  using assms
  by (auto simp add: selected_loan_def make_payment_select_def Let_def
      split: option.splits sum.splits if_splits)

lemma selected_loan_stored:
  assumes "selected_loan s choice_in = Some loan"
  shows "loan \<in> set (loans (db s))"
proof -
  from selected_loan_SomeD [OF assms] obtain user :: User and c where
    c: "1 \<le> c" "c \<le> int (length (Loan_get_user_loans (db s) (user_id user)))"
    and l: "loan = Loan_get_user_loans (db s) (user_id user) ! nat (c - 1)"
    by blast
  from c have "nat (c - 1) < length (Loan_get_user_loans (db s) (user_id user))" by linarith
  then have "loan \<in> set (Loan_get_user_loans (db s) (user_id user))"
    unfolding l by (rule nth_mem)
  then show ?thesis by (rule user_loans_stored)
qed

lemma selected_loan_has_id:
  assumes "store_constraints (db s)" "selected_loan s choice_in = Some loan"
  shows "\<exists>k. loan_id loan = Some k"
  using stored_loan_has_id [OF assms(1) selected_loan_stored [OF assms(2)]] by blast

lemma make_payment_unselected:
  assumes "selected_loan s choice_in = None"
  shows "snd (make_payment choice_in amount_in now s) = s"
    and "fst (make_payment choice_in amount_in now s) \<in>
           {''Please login first.'', ''You have no active loans.'',
            ''Invalid input. Please enter a number.'', ''Invalid selection.''}"
  using assms
  by (auto simp add: make_payment_def selected_loan_def make_payment_pay_def
      make_payment_select_def Let_def split: option.splits sum.splits if_splits)

lemma make_payment_selected:
  assumes "selected_loan s choice_in = Some loan"
  shows "make_payment choice_in amount_in now s =
           (if status loan \<noteq> ''approved'' then (''This loan is not approved for payment.'', s)
            else case amount_in of
              None \<Rightarrow> (''Invalid input. Please enter a number.'', s)
            | Some amt \<Rightarrow>
                (case Loan_make_payment loan amt now (db s) of
                   (Inl e, loan', d') \<Rightarrow> (error_line, s\<lparr>db := d'\<rparr>)
                 | (Inr (success, message), loan', d') \<Rightarrow> (message, s\<lparr>db := d'\<rparr>)))"
  using assms
  by (auto simp add: make_payment_def selected_loan_def make_payment_pay_def Let_def
      split: option.splits sum.splits if_splits prod.splits)

lemma make_payment_rejected:
  assumes sel: "selected_loan s choice_in = Some loan"
    and no: "status loan \<noteq> ''approved'' \<or> amount_in = None
             \<or> (\<exists>amt. amount_in = Some amt
                   \<and> (float_le amt (Finite 0) \<or> float_gt amt (current_balance loan)))"
  shows "snd (make_payment choice_in amount_in now s) = s"
    and "fst (make_payment choice_in amount_in now s) \<in>
           {''This loan is not approved for payment.'', ''Invalid input. Please enter a number.'',
            ''Payment amount must be positive'', ''Payment exceeds current balance''}"
  using no
  by (auto simp add: make_payment_selected [OF sel] Loan_make_payment_refused
      split: option.splits if_splits)

lemma make_payment_not_payable:
  assumes "\<not> payable s choice_in amount_in"
  shows "snd (make_payment choice_in amount_in now s) = s"
    and "fst (make_payment choice_in amount_in now s) \<in>
           {''Please login first.'', ''You have no active loans.'',
            ''Invalid input. Please enter a number.'', ''Invalid selection.'',
            ''This loan is not approved for payment.'',
            ''Payment amount must be positive'', ''Payment exceeds current balance''}"
proof -
  show "snd (make_payment choice_in amount_in now s) = s"
  proof (cases "selected_loan s choice_in")
    case None
    then show ?thesis by (rule make_payment_unselected)
  next
    case (Some loan)
    with assms have "status loan \<noteq> ''approved'' \<or> amount_in = None
             \<or> (\<exists>amt. amount_in = Some amt
                   \<and> (float_le amt (Finite 0) \<or> float_gt amt (current_balance loan)))"
      unfolding payable_def by (cases amount_in) auto
    with Some show ?thesis by (rule make_payment_rejected)
  qed
  show "fst (make_payment choice_in amount_in now s) \<in>
           {''Please login first.'', ''You have no active loans.'',
            ''Invalid input. Please enter a number.'', ''Invalid selection.'',
            ''This loan is not approved for payment.'',
            ''Payment amount must be positive'', ''Payment exceeds current balance''}"
  proof (cases "selected_loan s choice_in")
    case None
    from make_payment_unselected(2) [OF None, of amount_in now] show ?thesis by auto
  next
    case (Some loan)
    with assms have "status loan \<noteq> ''approved'' \<or> amount_in = None
             \<or> (\<exists>amt. amount_in = Some amt
                   \<and> (float_le amt (Finite 0) \<or> float_gt amt (current_balance loan)))"
      unfolding payable_def by (cases amount_in) auto
    from make_payment_rejected(2) [OF Some this, of now] show ?thesis by auto
  qed
qed

text \<open>A payment that passes the checks, on a store that satisfies the constraints of
  the schema: the balance is converted and written, then the amount is converted and the
  payment row written.\<close>

lemma make_payment_checked:
  assumes sc: "store_constraints (db s)" and sel: "selected_loan s choice_in = Some loan"
    and k: "loan_id loan = Some k" and st: "status loan = ''approved''"
    and pos: "\<not> float_le amt (Finite 0)" and le: "\<not> float_gt amt (current_balance loan)"
  shows "make_payment choice_in (Some amt) now s =
     (case numeric_cast 10 2 (float_sub (current_balance loan) amt) of
        Inl e \<Rightarrow> (error_line, s)
      | Inr b \<Rightarrow>
          (case numeric_cast 10 2 amt of
             Inl e \<Rightarrow>
               (error_line,
                s\<lparr>db := (db s)
                  \<lparr>loans := map (\<lambda>r. if loan_id r = Some k then r\<lparr>current_balance := b\<rparr> else r)
                              (loans (db s))\<rparr>\<rparr>)
           | Inr a \<Rightarrow>
               (''Payment successful'',
                s\<lparr>db := (db s)
                  \<lparr>loans := map (\<lambda>r. if loan_id r = Some k
                                       then r\<lparr>current_balance := b,
                                              status := (if float_eq (float_sub (current_balance loan) amt)
                                                               (Finite 0)
                                                         then ''paid'' else ''approved'')\<rparr>
                                       else r) (loans (db s)),
                   payments := payments (db s) @
                     [\<lparr>payment_id = Some (payments_payment_id_seq (db s)),
                       payment_loan_id = Some k, payment_amount = a, payment_date = now\<rparr>],
                   payments_payment_id_seq := payments_payment_id_seq (db s) + 1\<rparr>\<rparr>)))"
proof -
  note stored = selected_loan_stored [OF sel]
  note row = stored_loan_row [OF sc stored]
  from sc have dist: "distinct (map loan_id (loans (db s)))"
    by (simp add: store_constraints_def)
  note upd = same_row_update [OF dist stored k]
  have "make_payment choice_in (Some amt) now s =
      (case Loan_make_payment loan amt now (db s) of
         (Inl e, loan', d') \<Rightarrow> (error_line, s\<lparr>db := d'\<rparr>)
       | (Inr (success, message), loan', d') \<Rightarrow> (message, s\<lparr>db := d'\<rparr>))"
    by (simp add: make_payment_selected [OF sel] st)
  then show ?thesis
    unfolding Loan_make_payment_checked [OF row k pos le]
    by (simp add: st upd [of "\<lambda>r. r\<lparr>current_balance := b\<rparr>" for b]
        upd [of "\<lambda>r. r\<lparr>current_balance := b, status := st'\<rparr>" for b st']
        split: sum.splits)
qed

subsection \<open>apply_for_loan\<close>

lemma round_half_away_abs: "\<bar>round_half_away y\<bar> = \<lfloor>\<bar>y\<bar> + 1 / 2\<rfloor>"
proof (cases "0 \<le> y")
  case True
  then have "0 \<le> \<lfloor>y + 1 / 2\<rfloor>" by simp
  with True show ?thesis by (simp add: round_half_away_def)
next
  case False
  then have "0 \<le> \<lfloor>- y + 1 / 2\<rfloor>" by simp
  with False show ?thesis by (simp add: round_half_away_def)
qed

lemma round_half_away_small:
  "\<bar>round_half_away y\<bar> < n \<longleftrightarrow> \<bar>y\<bar> + 1 / 2 < of_int n"
  unfolding round_half_away_abs by (rule floor_less_iff)

text \<open>The amounts that \<^verbatim>\<open>DECIMAL(10, 2)\<close> takes: \<^verbatim>\<open>NaN\<close>, and the numbers that round
  to at most 99999999.99 in magnitude.\<close>

lemma numeric_10_2_fits:
  "(\<exists>v. numeric_cast 10 2 amt = Inr v) \<longleftrightarrow>
     amt = NaN \<or> (\<exists>x. amt = Finite x \<and> \<bar>x\<bar> < 99999999995 / 1000)"
proof (cases amt)
  case (Finite x)
  have "\<bar>round_half_away (x * 10 ^ 2)\<bar> < 10 ^ 10 \<longleftrightarrow> \<bar>x\<bar> < 99999999995 / 1000"
    unfolding round_half_away_small by (auto simp add: abs_mult)
  then show ?thesis
    by (auto simp add: Finite numeric_cast_def Let_def not_le)
qed (simp_all add: numeric_cast_def)

text \<open>The terms whose rate \<^verbatim>\<open>DECIMAL(5, 2)\<close> takes.\<close>

lemma rate_fits:
  "\<bar>round_half_away (min (5 + rat_of_int trm / 12) 15 * 10 ^ 2)\<bar> < 10 ^ 5 \<longleftrightarrow> - 12060 < trm"
proof -
  define q where "q = rat_of_int trm"
  have "\<bar>min (5 + q / 12) 15\<bar> < 999995 / 1000 \<longleftrightarrow> - 1205994 < q * 100"
    by (simp add: min_def abs_if) linarith
  also have "- 1205994 < q * 100 \<longleftrightarrow> rat_of_int (- 1205994) < rat_of_int (trm * 100)"
    by (simp add: q_def)
  also have "\<dots> \<longleftrightarrow> - 1205994 < trm * 100"
    by (rule of_int_less_iff)
  also have "\<dots> \<longleftrightarrow> - 12060 < trm"
    by linarith
  finally have "\<bar>min (5 + q / 12) 15\<bar> < 999995 / 1000 \<longleftrightarrow> - 12060 < trm" .
  moreover have "\<bar>round_half_away (min (5 + q / 12) 15 * 10 ^ 2)\<bar> < 10 ^ 5 \<longleftrightarrow>
      \<bar>min (5 + q / 12) 15\<bar> < 999995 / 1000"
    unfolding round_half_away_small by (auto simp add: abs_mult)
  ultimately show ?thesis
    by (simp add: q_def)
qed

lemma py_min_rate:
  "py_min (Finite (5 + q)) (Finite 15) = Finite (min (5 + q) 15)"
  by (simp add: py_min_def min_def)

lemma int_truediv_cases:
  "int_truediv trm 12 = Inl OverflowError \<or> int_truediv trm 12 = Inr (Finite (of_int trm / 12))"
  by (simp add: int_truediv_def)

lemma apply_for_loan_refused:
  assumes "current_user s = None \<or> amount_in = None \<or> term_in = None"
  shows "apply_for_loan amount_in term_in now s =
           (if current_user s = None then ''Please login first.''
            else ''Invalid input. Please enter numbers only.'', s)"
  using assms by (auto simp add: apply_for_loan_def split: option.splits)

lemma apply_for_loan_created:
  assumes u: "current_user s = Some user" and a: "numeric_cast 10 2 amt = Inr v"
    and t: "- 12060 < trm" "trm < 2 ^ 31"
  shows "apply_for_loan (Some amt) (Some trm) now s =
     (''Loan application submitted successfully!'',
      s\<lparr>db := (db s)\<lparr>loans := loans (db s) @
               [\<lparr>loan_id = Some (loans_loan_id_seq (db s)), loan_user_id = user_id user,
                 amount = v, loan_term = trm,
                 interest_rate =
                   Finite (of_int (round_half_away (min (5 + of_int trm / 12) 15 * 100)) / 100),
                 status = ''pending'', loan_created_at = now, current_balance = v\<rparr>],
             loans_loan_id_seq := loans_loan_id_seq (db s) + 1\<rparr>\<rparr>)"
proof -
  from t have "\<bar>trm\<bar> \<le> 2 ^ 31" by simp
  then have years: "int_truediv trm 12 = Inr (Finite (of_int trm / 12))"
    by (rule int_truediv_term)
  from t have int: "integer_cast trm = Inr trm"
    by (simp add: integer_cast_def)
  from t(1) have "\<not> 10 ^ 5 \<le> \<bar>round_half_away (min (5 + rat_of_int trm / 12) 15 * 10 ^ 2)\<bar>"
    using rate_fits [of trm] by simp
  then have rate: "numeric_cast 5 2 (Finite (min (5 + rat_of_int trm / 12) 15)) =
      Inr (Finite (of_int (round_half_away (min (5 + of_int trm / 12) 15 * 100)) / 100))"
    by (simp add: numeric_cast_def Let_def)
  show ?thesis
    by (simp add: apply_for_loan_def u years py_min_rate Loan_save_def loans_row_def a int rate
        Let_def)
qed

lemma apply_for_loan_raises:
  assumes u: "current_user s = Some user"
    and no: "\<not> ((\<exists>v. numeric_cast 10 2 amt = Inr v) \<and> - 12060 < trm \<and> trm < 2 ^ 31)"
  shows "apply_for_loan (Some amt) (Some trm) now s = (error_line, s)"
proof (cases "int_truediv trm 12")
  case (Inl e)
  then show ?thesis
    by (simp add: apply_for_loan_def u)
next
  case (Inr years)
  with int_truediv_cases [of trm] have years: "int_truediv trm 12 = Inr (Finite (of_int trm / 12))"
    by simp
  have "\<exists>e. loans_row \<lparr>loan_id = None, loan_user_id = user_id user, amount = amt,
      loan_term = trm, interest_rate = Finite (min (5 + of_int trm / 12) 15),
      status = ''pending'', loan_created_at = now, current_balance = amt\<rparr> = Inl e"
  proof (cases "numeric_cast 10 2 amt")
    case (Inl e)
    then show ?thesis by (simp add: loans_row_def)
  next
    case v: (Inr v)
    show ?thesis
    proof (cases "integer_cast trm")
      case (Inl e)
      with v show ?thesis by (simp add: loans_row_def)
    next
      case t: (Inr t)
      then have "- (2 ^ 31) \<le> trm" "trm < 2 ^ 31"
        by (simp_all add: integer_cast_def split: if_splits)
      with no v have "\<not> - 12060 < trm" by simp
      then have "10 ^ 5 \<le> \<bar>round_half_away (min (5 + rat_of_int trm / 12) 15 * 10 ^ 2)\<bar>"
        using rate_fits [of trm] by simp
      then have "numeric_cast 5 2 (Finite (min (5 + rat_of_int trm / 12) 15)) = Inl DataError"
        by (simp add: numeric_cast_def Let_def)
      with v t show ?thesis by (simp add: loans_row_def)
    qed
  qed
  then obtain e where "loans_row \<lparr>loan_id = None, loan_user_id = user_id user, amount = amt,
      loan_term = trm, interest_rate = Finite (min (5 + of_int trm / 12) 15),
      status = ''pending'', loan_created_at = now, current_balance = amt\<rparr> = Inl e" ..
  then show ?thesis
    by (simp add: apply_for_loan_def u years py_min_rate Loan_save_def Let_def)
qed

lemma apply_for_loan_successful_iff:
  assumes u: "current_user s = Some user"
  shows "fst (apply_for_loan (Some amt) (Some trm) now s) =
           ''Loan application submitted successfully!'' \<longleftrightarrow>
         (\<exists>v. numeric_cast 10 2 amt = Inr v) \<and> - 12060 < trm \<and> trm < 2 ^ 31"
proof (cases "(\<exists>v. numeric_cast 10 2 amt = Inr v) \<and> - 12060 < trm \<and> trm < 2 ^ 31")
  case True
  then obtain v where "numeric_cast 10 2 amt = Inr v" and "- 12060 < trm" "trm < 2 ^ 31"
    by blast
  from apply_for_loan_created [OF u this] True show ?thesis by simp
next
  case False
  from apply_for_loan_raises [OF u False] False show ?thesis
    by (simp add: error_line_def)
qed

text \<open>
  Claim C7, as the code has it. Every loan that \<^verbatim>\<open>apply_for_loan\<close> creates is stored with
  the interest rate \<open>min (5 + term / 12) 15\<close> rounded to two decimals, half away from zero,
  by the column \<^verbatim>\<open>interest_rate DECIMAL(5, 2)\<close>: a term of 24 months gives 7, a term of
  144 months gives the cap 15.
\<close>

theorem C7_interest_rate:
  assumes "current_user s = Some user"
    and "fst (apply_for_loan (Some amt) (Some trm) now s) =
           ''Loan application submitted successfully!''"
  shows "\<exists>l. loans (db (snd (apply_for_loan (Some amt) (Some trm) now s))) = loans (db s) @ [l]
           \<and> loan_term l = trm
           \<and> interest_rate l =
               Finite (of_int (round_half_away (min (5 + of_int trm / 12) 15 * 100)) / 100)
           \<and> (trm = 24 \<longrightarrow> interest_rate l = Finite 7)
           \<and> (trm = 144 \<longrightarrow> interest_rate l = Finite 15)"
proof -
  from assms(2) obtain v where v: "numeric_cast 10 2 amt = Inr v"
    and t: "- 12060 < trm" "trm < 2 ^ 31"
    unfolding apply_for_loan_successful_iff [OF assms(1)] by blast
  show ?thesis
    unfolding apply_for_loan_created [OF assms(1) v t]
    by (simp add: round_half_away_def floor_rat_numeral)
qed

theorem C7_interest_rate_witness:
  "current_user alice_session = Some alice
   \<and> fst (apply_for_loan (Some (Finite 1000)) (Some 24) 2 alice_session) =
       ''Loan application submitted successfully!''
   \<and> (\<exists>l. loans (db (snd (apply_for_loan (Some (Finite 1000)) (Some 24) 2 alice_session))) =
            loans (db alice_session) @ [l]
          \<and> loan_term l = 24 \<and> interest_rate l = Finite 7)
   \<and> fst (apply_for_loan (Some (Finite 1000)) (Some 144) 2 alice_session) =
       ''Loan application submitted successfully!''
   \<and> (\<exists>l. loans (db (snd (apply_for_loan (Some (Finite 1000)) (Some 144) 2 alice_session))) =
            loans (db alice_session) @ [l]
          \<and> loan_term l = 144 \<and> interest_rate l = Finite 15)"
proof -
  have u: "current_user alice_session = Some alice"
    by (simp add: alice_session_eq)
  have ok: "fst (apply_for_loan (Some (Finite 1000)) (Some 24) 2 alice_session) =
       ''Loan application submitted successfully!''"
    "fst (apply_for_loan (Some (Finite 1000)) (Some 144) 2 alice_session) =
       ''Loan application submitted successfully!''"
    by (simp_all add: alice_session_eq apply_for_loan_def int_truediv_numeral entity_defs
        number_defs)
  from C7_interest_rate [OF u ok(1)] C7_interest_rate [OF u ok(2)] u ok
  show ?thesis by auto
qed

text \<open>Claim C7 as the specification states it fails: for a term of 1 month the formula
  gives 61/12, the loan is stored with the rate 5.08.\<close>

theorem C7_counterexample:
  "map interest_rate
     (loans (db (snd (apply_for_loan (Some (Finite 1000)) (Some 1) 2 alice_session)))) =
     [Finite (508 / 100)]
   \<and> min (5 + rat_of_int 1 / 12) 15 = 61 / 12
   \<and> (508 / 100 :: rat) \<noteq> 61 / 12"
  by (simp add: alice_session_eq apply_for_loan_def int_truediv_numeral entity_defs
      number_defs)

text \<open>
  Claim C6, as the code has it. \<^verbatim>\<open>apply_for_loan\<close> prints \<^verbatim>\<open>Please login first.\<close> when
  nobody is logged in and \<^verbatim>\<open>Invalid input\<close> when one of the two answers is not a number,
  and changes nothing. Otherwise it creates a pending loan of the logged-in user whose
  balance is its principal, the amount typed as the column holds it, exactly when the
  amount is \<^verbatim>\<open>nan\<close> or below 99999999.995 in magnitude and the term is from -12059 to
  2147483647, whatever the sign of the amount and of the term. For every other amount or
  term the exception is not caught: the program ends and no loan is created.
\<close>

theorem C6_apply_for_loan:
  "(current_user s = None \<longrightarrow>
      apply_for_loan amount_in term_in now s = (''Please login first.'', s))
   \<and> (current_user s \<noteq> None \<and> (amount_in = None \<or> term_in = None) \<longrightarrow>
        apply_for_loan amount_in term_in now s =
          (''Invalid input. Please enter numbers only.'', s))
   \<and> (\<forall>user amt trm.
        current_user s = Some user \<and> amount_in = Some amt \<and> term_in = Some trm \<longrightarrow>
          (if (amt = NaN \<or> (\<exists>x. amt = Finite x \<and> \<bar>x\<bar> < 99999999995 / 1000))
              \<and> - 12060 < trm \<and> trm < 2 ^ 31
           then
             fst (apply_for_loan amount_in term_in now s) =
               ''Loan application submitted successfully!''
             \<and> current_user (snd (apply_for_loan amount_in term_in now s)) = Some user
             \<and> users (db (snd (apply_for_loan amount_in term_in now s))) = users (db s)
             \<and> payments (db (snd (apply_for_loan amount_in term_in now s))) = payments (db s)
             \<and> (\<exists>l. loans (db (snd (apply_for_loan amount_in term_in now s))) =
                      loans (db s) @ [l]
                    \<and> loan_id l = Some (loans_loan_id_seq (db s))
                    \<and> loan_user_id l = user_id user
                    \<and> numeric_cast 10 2 amt = Inr (amount l) \<and> loan_term l = trm
                    \<and> status l = ''pending'' \<and> current_balance l = amount l)
           else apply_for_loan amount_in term_in now s = (error_line, s)))"
proof (intro conjI impI allI)
  assume "current_user s = None"
  then show "apply_for_loan amount_in term_in now s = (''Please login first.'', s)"
    by (simp add: apply_for_loan_refused)
next
  assume "current_user s \<noteq> None \<and> (amount_in = None \<or> term_in = None)"
  then show "apply_for_loan amount_in term_in now s =
      (''Invalid input. Please enter numbers only.'', s)"
    by (simp add: apply_for_loan_refused)
next
  fix user amt trm
  assume a: "current_user s = Some user \<and> amount_in = Some amt \<and> term_in = Some trm"
  then have u: "current_user s = Some user" and i: "amount_in = Some amt" "term_in = Some trm"
    by simp_all
  show "if (amt = NaN \<or> (\<exists>x. amt = Finite x \<and> \<bar>x\<bar> < 99999999995 / 1000))
              \<and> - 12060 < trm \<and> trm < 2 ^ 31
           then
             fst (apply_for_loan amount_in term_in now s) =
               ''Loan application submitted successfully!''
             \<and> current_user (snd (apply_for_loan amount_in term_in now s)) = Some user
             \<and> users (db (snd (apply_for_loan amount_in term_in now s))) = users (db s)
             \<and> payments (db (snd (apply_for_loan amount_in term_in now s))) = payments (db s)
             \<and> (\<exists>l. loans (db (snd (apply_for_loan amount_in term_in now s))) =
                      loans (db s) @ [l]
                    \<and> loan_id l = Some (loans_loan_id_seq (db s))
                    \<and> loan_user_id l = user_id user
                    \<and> numeric_cast 10 2 amt = Inr (amount l) \<and> loan_term l = trm
                    \<and> status l = ''pending'' \<and> current_balance l = amount l)
           else apply_for_loan amount_in term_in now s = (error_line, s)"
  proof (cases "(amt = NaN \<or> (\<exists>x. amt = Finite x \<and> \<bar>x\<bar> < 99999999995 / 1000))
              \<and> - 12060 < trm \<and> trm < 2 ^ 31")
    case True
    then obtain v where v: "numeric_cast 10 2 amt = Inr v"
      unfolding numeric_10_2_fits [symmetric] by blast
    from True have t: "- 12060 < trm" "trm < 2 ^ 31" by simp_all
    note eq = apply_for_loan_created [OF u v t, of now]
    from True show ?thesis
      unfolding i eq using u v by simp
  next
    case False
    then have "\<not> ((\<exists>v. numeric_cast 10 2 amt = Inr v) \<and> - 12060 < trm \<and> trm < 2 ^ 31)"
      unfolding numeric_10_2_fits .
    from apply_for_loan_raises [OF u this] False show ?thesis
      unfolding i by simp
  qed
qed

theorem C6_apply_for_loan_witness:
  "current_user alice_session = Some alice
   \<and> fst (apply_for_loan (Some (Finite (- 5))) (Some 0) 2 alice_session) =
       ''Loan application submitted successfully!''
   \<and> (\<exists>l. loans (db (snd (apply_for_loan (Some (Finite (- 5))) (Some 0) 2 alice_session))) =
            loans (db alice_session) @ [l]
          \<and> loan_user_id l = Some 2 \<and> amount l = Finite (- 5) \<and> loan_term l = 0
          \<and> status l = ''pending'' \<and> current_balance l = Finite (- 5))
   \<and> apply_for_loan None (Some 12) 2 alice_session =
       (''Invalid input. Please enter numbers only.'', alice_session)
   \<and> apply_for_loan (Some (Finite 100)) (Some (- 12060)) 2 alice_session =
       (error_line, alice_session)
   \<and> apply_for_loan (Some (Finite 100)) (Some 12) 2 (alice_session\<lparr>current_user := None\<rparr>) =
       (''Please login first.'', alice_session\<lparr>current_user := None\<rparr>)"
proof -
  have u: "current_user alice_session = Some alice"
    by (simp add: alice_session_eq)
  have a: "user_id alice = Some 2"
    by (simp add: alice_def)
  have v: "numeric_cast 10 2 (Finite (- 5)) = Inr (Finite (- 5))"
    by (simp add: number_defs)
  from C6_apply_for_loan [of alice_session "Some (Finite (- 5))" "Some 0" 2] u a v
  have "fst (apply_for_loan (Some (Finite (- 5))) (Some 0) 2 alice_session) =
       ''Loan application submitted successfully!''
   \<and> (\<exists>l. loans (db (snd (apply_for_loan (Some (Finite (- 5))) (Some 0) 2 alice_session))) =
            loans (db alice_session) @ [l]
          \<and> loan_user_id l = Some 2 \<and> amount l = Finite (- 5) \<and> loan_term l = 0
          \<and> status l = ''pending'' \<and> current_balance l = Finite (- 5))"
    by auto
  moreover from C6_apply_for_loan [of alice_session None "Some 12" 2] u
  have "apply_for_loan None (Some 12) 2 alice_session =
       (''Invalid input. Please enter numbers only.'', alice_session)"
    by simp
  moreover from C6_apply_for_loan [of alice_session "Some (Finite 100)" "Some (- 12060)" 2] u
  have "apply_for_loan (Some (Finite 100)) (Some (- 12060)) 2 alice_session =
       (error_line, alice_session)"
    by simp
  moreover from C6_apply_for_loan [of "alice_session\<lparr>current_user := None\<rparr>"
      "Some (Finite 100)" "Some 12" 2]
  have "apply_for_loan (Some (Finite 100)) (Some 12) 2 (alice_session\<lparr>current_user := None\<rparr>) =
       (''Please login first.'', alice_session\<lparr>current_user := None\<rparr>)"
    by simp
  ultimately show ?thesis using u by simp
qed

text \<open>Claim C6 as the specification states it fails, both ways. A principal of -5 with a
  term of 0 months is accepted. A principal of 1000000000 with a term of 12 months, a
  term of 2147483648 months and a term of \<open>10 ^ 400\<close> months are each positive, and no
  loan is created: the \<^verbatim>\<open>INSERT\<close> raises for the first two, \<^verbatim>\<open>term / 12\<close> raises
  \<^verbatim>\<open>OverflowError\<close> for the third, and the program ends.\<close>

theorem C6_counterexample:
  "apply_for_loan (Some (Finite (- 5))) (Some 0) 2 alice_session =
     (''Loan application submitted successfully!'',
      alice_session\<lparr>db := (db alice_session)
        \<lparr>loans := [\<lparr>loan_id = Some 1, loan_user_id = Some 2, amount = Finite (- 5),
                    loan_term = 0, interest_rate = Finite 5, status = ''pending'',
                    loan_created_at = 2, current_balance = Finite (- 5)\<rparr>],
         loans_loan_id_seq := 2\<rparr>\<rparr>)
   \<and> apply_for_loan (Some (Finite 1000000000)) (Some 12) 2 alice_session =
       (''An error occurred'', alice_session)
   \<and> step_raises alice_session (ApplyForLoan (Some (Finite 1000000000)) (Some 12) 2)
   \<and> apply_for_loan (Some (Finite 100)) (Some 2147483648) 2 alice_session =
       (''An error occurred'', alice_session)
   \<and> int_truediv (10 ^ 400) 12 = Inl OverflowError
   \<and> apply_for_loan (Some (Finite 100)) (Some (10 ^ 400)) 2 alice_session =
       (''An error occurred'', alice_session)"
proof -
  have u: "current_user alice_session = Some alice"
    by (simp add: alice_session_eq)
  have big: "int_truediv (10 ^ 400) 12 = Inl OverflowError"
    by (simp add: int_truediv_def float_overflow_def)
  have years: "int_truediv 2147483648 12 = Inr (Finite (2147483648 / 12))"
    using int_truediv_term [of 2147483648] by simp
  have accepted: "apply_for_loan (Some (Finite (- 5))) (Some 0) 2 alice_session =
     (''Loan application submitted successfully!'',
      alice_session\<lparr>db := (db alice_session)
        \<lparr>loans := [\<lparr>loan_id = Some 1, loan_user_id = Some 2, amount = Finite (- 5),
                    loan_term = 0, interest_rate = Finite 5, status = ''pending'',
                    loan_created_at = 2, current_balance = Finite (- 5)\<rparr>],
         loans_loan_id_seq := 2\<rparr>\<rparr>)"
    by (simp add: alice_session_eq apply_for_loan_def int_truediv_numeral entity_defs
        number_defs alice_def)
  have principal: "apply_for_loan (Some (Finite 1000000000)) (Some 12) 2 alice_session =
       (''An error occurred'', alice_session)"
    by (simp add: alice_session_eq apply_for_loan_def int_truediv_numeral error_line_def
        entity_defs number_defs alice_def)
  then have raises: "step_raises alice_session (ApplyForLoan (Some (Finite 1000000000)) (Some 12) 2)"
    by (simp add: step_raises_def u error_line_def)
  have months: "apply_for_loan (Some (Finite 100)) (Some 2147483648) 2 alice_session =
       (''An error occurred'', alice_session)"
    by (simp add: years alice_session_eq apply_for_loan_def error_line_def entity_defs
        number_defs alice_def)
  have "apply_for_loan (Some (Finite 100)) (Some (10 ^ 400)) 2 alice_session =
       (error_line, alice_session)"
    by (rule apply_for_loan_raises [OF u]) simp
  then have huge: "apply_for_loan (Some (Finite 100)) (Some (10 ^ 400)) 2 alice_session =
       (''An error occurred'', alice_session)"
    by (simp only: error_line_def)
  from accepted principal raises months big huge show ?thesis
    by blast
qed

subsection \<open>The three writes to the ledger tables\<close>

text \<open>Every change the program makes to \<^verbatim>\<open>loans\<close> and \<^verbatim>\<open>payments\<close> is one of three: a
  new pending loan, the statements of a payment on an approved loan, a decision on a
  pending loan.\<close>

lemma store_constraints_cong:
  assumes "loans d' = loans d" "payments d' = payments d"
    "loans_loan_id_seq d' = loans_loan_id_seq d"
  shows "store_constraints d' = store_constraints d"
  by (simp add: store_constraints_def assms)

lemma schema_inv_cong:
  assumes "loans d' = loans d" "payments d' = payments d"
    "loans_loan_id_seq d' = loans_loan_id_seq d"
  shows "schema_inv d' = schema_inv d"
  by (simp add: schema_inv_def store_constraints_cong [OF assms] assms(1))

lemma schema_inv_empty: "schema_inv empty_tables"
  by (simp add: schema_inv_def store_constraints_def empty_tables_def)

lemma schema_inv_init: "schema_inv (db (LoanApplicationSystem_init None admin_hash now))"
proof -
  have "schema_inv (db (LoanApplicationSystem_init None admin_hash now)) = schema_inv empty_tables"
    by (rule schema_inv_cong)
      (simp_all add: LoanApplicationSystem_init_def initialize_database_def User_save_def
        User_create_def empty_tables_def)
  then show ?thesis by (simp add: schema_inv_empty)
qed

subsubsection \<open>A new loan\<close>

lemma store_constraints_new_loan:
  assumes sc: "store_constraints d"
    and d': "loans d' = loans d @ [l]" "payments d' = payments d"
      "loans_loan_id_seq d' = loans_loan_id_seq d + 1"
    and l: "loan_id l = Some (loans_loan_id_seq d)" "loans_row l = Inr l"
  shows "store_constraints d'"
proof -
  have fresh: "loan_id l \<notin> set (map loan_id (loans d))"
  proof
    assume "loan_id l \<in> set (map loan_id (loans d))"
    then obtain r where r: "r \<in> set (loans d)" "loan_id r = loan_id l" by auto
    from stored_loan_has_id [OF sc r(1)] r(2) l show False by auto
  qed
  have below: "drawn_below (loan_id r) (loans_loan_id_seq d + 1)"
    if "r \<in> set (loans d)" for r
    using stored_loan_has_id [OF sc that] by auto
  from sc have "distinct (map loan_id (loans d))"
    and rows: "\<forall>r \<in> set (loans d). loans_row r = Inr r"
    and fk: "\<forall>p \<in> set (payments d).
      payment_loan_id p \<in> set (map loan_id (loans d)) \<and> payments_row p = Inr p"
    by (simp_all add: store_constraints_def)
  then show ?thesis
    using fresh below l by (auto simp add: store_constraints_def d')
qed

lemma schema_inv_new_loan:
  assumes inv: "schema_inv d"
    and d': "loans d' = loans d @ [l]" "payments d' = payments d"
      "loans_loan_id_seq d' = loans_loan_id_seq d + 1"
    and l: "loan_id l = Some (loans_loan_id_seq d)" "loans_row l = Inr l"
      "status l = ''pending''"
      "numeric_cast 5 2 (Finite (min (5 + of_int (loan_term l) / 12) 15)) = Inr (interest_rate l)"
  shows "schema_inv d'"
proof -
  from inv have sc: "store_constraints d" by (simp add: schema_inv_def)
  have "store_constraints d'"
    using sc d' l(1,2) by (rule store_constraints_new_loan)
  with inv l(3,4) show ?thesis
    by (auto simp add: schema_inv_def d'(1))
qed

lemma loans_evolve_refl:
  assumes "loans d' = loans d"
  shows "loans_evolve d d'"
  by (simp add: loans_evolve_def assms status_path_def)

lemma loans_evolve_new_loan:
  assumes "loans d' = loans d @ [l]" "status l = ''pending''" "current_balance l = amount l"
  shows "loans_evolve d d'"
  unfolding loans_evolve_def
proof (intro conjI allI impI)
  show "length (loans d) \<le> length (loans d')" by (simp add: assms)
next
  fix i assume "i < length (loans d')" "length (loans d) \<le> i"
  then have "loans d' ! i = l"
    by (simp add: assms(1) nth_append less_Suc_eq_le)
  then show "status (loans d' ! i) = ''pending''"
    and "current_balance (loans d' ! i) = amount (loans d' ! i)"
    by (simp_all add: assms)
qed (simp_all add: assms(1) nth_append status_path_def)

lemma apply_for_loan_cases:
  "snd (apply_for_loan amount_in term_in now s) = s
   \<or> (\<exists>user amt trm v. current_user s = Some user \<and> amount_in = Some amt \<and> term_in = Some trm
         \<and> numeric_cast 10 2 amt = Inr v \<and> - 12060 < trm \<and> trm < 2 ^ 31)"
proof (cases "current_user s = None \<or> amount_in = None \<or> term_in = None")
  case True
  then show ?thesis by (simp add: apply_for_loan_refused)
next
  case False
  then obtain user amt trm where u: "current_user s = Some user"
    and i: "amount_in = Some amt" "term_in = Some trm" by auto
  show ?thesis
  proof (cases "(\<exists>v. numeric_cast 10 2 amt = Inr v) \<and> - 12060 < trm \<and> trm < 2 ^ 31")
    case True
    with u i show ?thesis by blast
  next
    case False
    from apply_for_loan_raises [OF u False] show ?thesis by (simp add: i)
  qed
qed

lemma apply_for_loan_schema:
  assumes inv: "schema_inv (db s)"
  shows "schema_inv (db (snd (apply_for_loan amount_in term_in now s)))"
    and "loans_evolve (db s) (db (snd (apply_for_loan amount_in term_in now s)))"
proof -
  have "schema_inv (db (snd (apply_for_loan amount_in term_in now s)))
      \<and> loans_evolve (db s) (db (snd (apply_for_loan amount_in term_in now s)))"
    using apply_for_loan_cases [of amount_in term_in now s]
  proof (elim disjE exE conjE)
    assume "snd (apply_for_loan amount_in term_in now s) = s"
    with inv show ?thesis by (simp add: loans_evolve_refl)
  next
    fix user amt trm v
    assume u: "current_user s = Some user" and i: "amount_in = Some amt" "term_in = Some trm"
      and v: "numeric_cast 10 2 amt = Inr v" and t: "- 12060 < trm" "trm < 2 ^ 31"
    define l where "l = \<lparr>loan_id = Some (loans_loan_id_seq (db s)), loan_user_id = user_id user,
        amount = v, loan_term = trm,
        interest_rate =
          Finite (of_int (round_half_away (min (5 + of_int trm / 12) 15 * 100)) / 100),
        status = ''pending'', loan_created_at = now, current_balance = v\<rparr>"
    let ?d' = "db (snd (apply_for_loan amount_in term_in now s))"
    have d': "loans ?d' = loans (db s) @ [l]" "payments ?d' = payments (db s)"
      "loans_loan_id_seq ?d' = loans_loan_id_seq (db s) + 1"
      by (simp_all add: i apply_for_loan_created [OF u v t] l_def)
    from t(1) have "\<not> 10 ^ 5 \<le> \<bar>round_half_away (min (5 + rat_of_int trm / 12) 15 * 10 ^ 2)\<bar>"
      using rate_fits [of trm] by simp
    then have rate: "numeric_cast 5 2 (Finite (min (5 + rat_of_int trm / 12) 15)) =
        Inr (interest_rate l)"
      by (simp add: numeric_cast_def Let_def l_def)
    from t have int: "integer_cast trm = Inr trm"
      by (simp add: integer_cast_def)
    have row: "loans_row l = Inr l"
      unfolding loans_row_stored_iff
      using numeric_cast_idem [OF v] numeric_cast_idem [OF rate] int by (simp add: l_def)
    have "schema_inv ?d'"
    proof (rule schema_inv_new_loan [OF inv d'])
      show "loan_id l = Some (loans_loan_id_seq (db s))" by (simp add: l_def)
      show "loans_row l = Inr l" by (rule row)
      show "status l = ''pending''" by (simp add: l_def)
      have "loan_term l = trm" by (simp add: l_def)
      with rate show "numeric_cast 5 2 (Finite (min (5 + of_int (loan_term l) / 12) 15)) =
          Inr (interest_rate l)" by simp
    qed
    moreover have "loans_evolve (db s) ?d'"
      using d'(1) by (rule loans_evolve_new_loan) (simp_all add: l_def)
    ultimately show ?thesis ..
  qed
  then show "schema_inv (db (snd (apply_for_loan amount_in term_in now s)))"
    and "loans_evolve (db s) (db (snd (apply_for_loan amount_in term_in now s)))"
    by simp_all
qed

subsubsection \<open>The statements of a payment\<close>

lemma approved_row_update:
  assumes "distinct (map loan_id rows)" "loan \<in> set rows" "loan_id loan = Some k"
    "status loan = ''approved''"
  shows "map (\<lambda>r. if loan_id r = Some k then r\<lparr>current_balance := b\<rparr> else r) rows =
         map (\<lambda>r. if loan_id r = Some k then r\<lparr>current_balance := b, status := ''approved''\<rparr>
                   else r) rows"
proof (rule map_cong [OF refl])
  fix r assume r: "r \<in> set rows"
  have "r = loan" if "loan_id r = Some k"
    using assms r that by (simp add: same_id_same_row)
  then show "(if loan_id r = Some k then r\<lparr>current_balance := b\<rparr> else r) =
             (if loan_id r = Some k then r\<lparr>current_balance := b, status := ''approved''\<rparr> else r)"
    using assms(4) by auto
qed

lemma map_loan_id_written:
  "map loan_id (map (\<lambda>r. if loan_id r = Some k then r\<lparr>current_balance := b, status := st\<rparr>
                          else r) rows) = map loan_id rows"
  by (induction rows) simp_all

lemma store_constraints_written:
  assumes sc: "store_constraints d" and loan: "loan \<in> set (loans d)" "loan_id loan = Some k"
    and b: "numeric_cast 10 2 b = Inr b"
    and d': "loans d' = map (\<lambda>r. if loan_id r = Some k
                                  then r\<lparr>current_balance := b, status := st\<rparr> else r) (loans d)"
      "loans_loan_id_seq d' = loans_loan_id_seq d"
    and pay: "payments d' = payments d
              \<or> (\<exists>p. payments d' = payments d @ [p] \<and> payment_loan_id p = Some k
                     \<and> payments_row p = Inr p)"
  shows "store_constraints d'"
proof -
  have ids: "map loan_id (loans d') = map loan_id (loans d)"
    by (simp only: d'(1) map_loan_id_written)
  have row: "drawn_below (loan_id r') (loans_loan_id_seq d) \<and> loans_row r' = Inr r'"
    if "r' \<in> set (loans d')" for r'
  proof -
    from that obtain r where r: "r \<in> set (loans d)"
      and r': "r' = (if loan_id r = Some k then r\<lparr>current_balance := b, status := st\<rparr> else r)"
      unfolding d'(1) by auto
    from sc r have old: "drawn_below (loan_id r) (loans_loan_id_seq d)" "loans_row r = Inr r"
      by (simp_all add: store_constraints_def)
    show ?thesis
      using old stored_row_balance [OF old(2) b, of st] by (auto simp add: r')
  qed
  have k: "Some k \<in> set (map loan_id (loans d))"
    using loan by force
  from sc have fk: "\<forall>p \<in> set (payments d).
      payment_loan_id p \<in> set (map loan_id (loans d)) \<and> payments_row p = Inr p"
    and dist: "distinct (map loan_id (loans d))"
    by (simp_all add: store_constraints_def)
  from pay have "\<forall>p \<in> set (payments d').
      payment_loan_id p \<in> set (map loan_id (loans d)) \<and> payments_row p = Inr p"
    using fk k by auto
  with dist row show ?thesis
    unfolding store_constraints_def ids d'(2) by simp
qed

lemma schema_inv_written:
  assumes inv: "schema_inv d" and loan: "loan \<in> set (loans d)" "loan_id loan = Some k"
    and b: "numeric_cast 10 2 b = Inr b" and st: "st = ''approved'' \<or> st = ''paid''"
    and d': "loans d' = map (\<lambda>r. if loan_id r = Some k
                                  then r\<lparr>current_balance := b, status := st\<rparr> else r) (loans d)"
      "loans_loan_id_seq d' = loans_loan_id_seq d"
    and pay: "payments d' = payments d
              \<or> (\<exists>p. payments d' = payments d @ [p] \<and> payment_loan_id p = Some k
                     \<and> payments_row p = Inr p)"
  shows "schema_inv d'"
proof -
  from inv have sc: "store_constraints d" by (simp add: schema_inv_def)
  have "store_constraints d'"
    using sc loan b d' pay by (rule store_constraints_written)
  moreover have "(status r' = ''pending'' \<or> status r' = ''approved'' \<or> status r' = ''rejected''
        \<or> status r' = ''paid'')
      \<and> numeric_cast 5 2 (Finite (min (5 + of_int (loan_term r') / 12) 15)) =
          Inr (interest_rate r')"
    if "r' \<in> set (loans d')" for r'
  proof -
    from that obtain r where r: "r \<in> set (loans d)"
      and r': "r' = (if loan_id r = Some k then r\<lparr>current_balance := b, status := st\<rparr> else r)"
      unfolding d'(1) by auto
    from inv r have "(status r = ''pending'' \<or> status r = ''approved'' \<or> status r = ''rejected''
        \<or> status r = ''paid'')
      \<and> numeric_cast 5 2 (Finite (min (5 + of_int (loan_term r) / 12) 15)) = Inr (interest_rate r)"
      by (simp add: schema_inv_def)
    with st show ?thesis by (auto simp add: r')
  qed
  ultimately show ?thesis
    by (simp add: schema_inv_def)
qed

lemma loans_evolve_written:
  assumes sc: "store_constraints d" and loan: "loan \<in> set (loans d)" "loan_id loan = Some k"
    and approved: "status loan = ''approved''" and st: "st = ''approved'' \<or> st = ''paid''"
    and d': "loans d' = map (\<lambda>r. if loan_id r = Some k
                                  then r\<lparr>current_balance := b, status := st\<rparr> else r) (loans d)"
  shows "loans_evolve d d'"
proof -
  from sc have dist: "distinct (map loan_id (loans d))"
    by (simp add: store_constraints_def)
  have row: "status_path (status r) st" if "r \<in> set (loans d)" "loan_id r = Some k" for r
  proof -
    from dist that loan have "r = loan" by (simp add: same_id_same_row)
    with approved st show ?thesis by (auto simp add: status_path_def)
  qed
  show ?thesis
    unfolding loans_evolve_def
  proof (intro conjI allI impI)
    fix i assume i: "i < length (loans d)"
    then have mem: "loans d ! i \<in> set (loans d)" by simp
    show "status_path (status (loans d ! i)) (status (loans d' ! i))"
      using i row [OF mem] by (simp add: d' status_path_def)
  qed (simp_all add: d')
qed

text \<open>What \<^verbatim>\<open>make_payment\<close> leaves behind: the state as it was, or the row of the
  selected approved loan with a new balance that the column holds, its status as it was
  or \<^verbatim>\<open>paid\<close>, and at most one new payment row for that loan.\<close>

lemma make_payment_cases:
  assumes sc: "store_constraints (db s)"
  shows "snd (make_payment choice_in amount_in now s) = s
     \<or> (\<exists>loan k b st.
          loan \<in> set (loans (db s)) \<and> loan_id loan = Some k \<and> status loan = ''approved''
          \<and> numeric_cast 10 2 b = Inr b \<and> (st = ''approved'' \<or> st = ''paid'')
          \<and> loans (db (snd (make_payment choice_in amount_in now s))) =
              map (\<lambda>r. if loan_id r = Some k then r\<lparr>current_balance := b, status := st\<rparr> else r)
                (loans (db s))
          \<and> loans_loan_id_seq (db (snd (make_payment choice_in amount_in now s))) =
              loans_loan_id_seq (db s)
          \<and> users (db (snd (make_payment choice_in amount_in now s))) = users (db s)
          \<and> current_user (snd (make_payment choice_in amount_in now s)) = current_user s
          \<and> (payments (db (snd (make_payment choice_in amount_in now s))) = payments (db s)
             \<or> (\<exists>p. payments (db (snd (make_payment choice_in amount_in now s))) =
                      payments (db s) @ [p]
                    \<and> payment_loan_id p = Some k \<and> payments_row p = Inr p)))"
proof (cases "payable s choice_in amount_in")
  case False
  then show ?thesis by (simp add: make_payment_not_payable)
next
  case True
  then obtain loan amt where sel: "selected_loan s choice_in = Some loan"
    and st: "status loan = ''approved''" and a: "amount_in = Some amt"
    and pos: "\<not> float_le amt (Finite 0)" and le: "\<not> float_gt amt (current_balance loan)"
    unfolding payable_def by blast
  from selected_loan_has_id [OF sc sel] obtain k where k: "loan_id loan = Some k" ..
  note stored = selected_loan_stored [OF sel]
  from sc have dist: "distinct (map loan_id (loans (db s)))"
    by (simp add: store_constraints_def)
  note eq = make_payment_checked [OF sc sel k st pos le, of now]
  define s' where "s' = snd (make_payment choice_in amount_in now s)"
  show ?thesis
  proof (cases "numeric_cast 10 2 (float_sub (current_balance loan) amt)")
    case (Inl e)
    then show ?thesis by (simp add: a eq)
  next
    case (Inr b)
    note b = numeric_cast_idem [OF Inr]
    show ?thesis
    proof (cases "numeric_cast 10 2 amt")
      case (Inl e)
      have s': "s' = s\<lparr>db := (db s)
          \<lparr>loans := map (\<lambda>r. if loan_id r = Some k then r\<lparr>current_balance := b\<rparr> else r)
                      (loans (db s))\<rparr>\<rparr>"
        by (simp add: s'_def a eq Inr Inl)
      have rows: "loans (db s') =
          map (\<lambda>r. if loan_id r = Some k then r\<lparr>current_balance := b, status := ''approved''\<rparr>
                    else r) (loans (db s))"
        using approved_row_update [OF dist stored k st, of b] by (simp add: s')
      have rest: "loans_loan_id_seq (db s') = loans_loan_id_seq (db s)"
        "users (db s') = users (db s)" "current_user s' = current_user s"
        "payments (db s') = payments (db s)"
        by (simp_all add: s')
      from stored k st b rows rest show ?thesis
        unfolding s'_def by blast
    next
      case v: (Inr v)
      define p where "p = \<lparr>payment_id = Some (payments_payment_id_seq (db s)),
        payment_loan_id = Some k, payment_amount = v, payment_date = now\<rparr>"
      define st' where "st' = (if float_eq (float_sub (current_balance loan) amt) (Finite 0)
                               then ''paid'' else ''approved'')"
      have p: "payment_loan_id p = Some k" "payments_row p = Inr p"
        using numeric_cast_idem [OF v] by (simp_all add: p_def payments_row_stored_iff)
      have st': "st' = ''approved'' \<or> st' = ''paid''"
        by (simp add: st'_def)
      have s': "s' = s\<lparr>db := (db s)
          \<lparr>loans := map (\<lambda>r. if loan_id r = Some k
                                then r\<lparr>current_balance := b, status := st'\<rparr> else r)
                      (loans (db s)),
           payments := payments (db s) @ [p],
           payments_payment_id_seq := payments_payment_id_seq (db s) + 1\<rparr>\<rparr>"
        by (simp add: s'_def a eq Inr v p_def st'_def)
      have rows: "loans (db s') =
          map (\<lambda>r. if loan_id r = Some k then r\<lparr>current_balance := b, status := st'\<rparr> else r)
            (loans (db s))"
        by (simp add: s')
      have rest: "loans_loan_id_seq (db s') = loans_loan_id_seq (db s)"
        "users (db s') = users (db s)" "current_user s' = current_user s"
        "payments (db s') = payments (db s) @ [p]"
        by (simp_all add: s')
      from stored k st b st' rows rest p show ?thesis
        unfolding s'_def by blast
    qed
  qed
qed

lemma make_payment_schema:
  assumes inv: "schema_inv (db s)"
  shows "schema_inv (db (snd (make_payment choice_in amount_in now s)))"
    and "loans_evolve (db s) (db (snd (make_payment choice_in amount_in now s)))"
proof -
  from inv have sc: "store_constraints (db s)" by (simp add: schema_inv_def)
  let ?d' = "db (snd (make_payment choice_in amount_in now s))"
  have "schema_inv ?d' \<and> loans_evolve (db s) ?d'"
  proof (cases "snd (make_payment choice_in amount_in now s) = s")
    case True
    with inv show ?thesis by (simp add: loans_evolve_refl)
  next
    case False
    with make_payment_cases [OF sc, of choice_in amount_in now]
    obtain loan k b st where loan: "loan \<in> set (loans (db s))" "loan_id loan = Some k"
      and approved: "status loan = ''approved''" and b: "numeric_cast 10 2 b = Inr b"
      and st: "st = ''approved'' \<or> st = ''paid''"
      and d': "loans ?d' =
          map (\<lambda>r. if loan_id r = Some k then r\<lparr>current_balance := b, status := st\<rparr> else r)
            (loans (db s))"
        "loans_loan_id_seq ?d' = loans_loan_id_seq (db s)"
      and pay: "payments ?d' = payments (db s)
             \<or> (\<exists>p. payments ?d' = payments (db s) @ [p]
                    \<and> payment_loan_id p = Some k \<and> payments_row p = Inr p)"
      by blast
    have "schema_inv ?d'"
      using inv loan b st d' pay by (rule schema_inv_written)
    moreover have "loans_evolve (db s) ?d'"
      using sc loan approved st d'(1) by (rule loans_evolve_written)
    ultimately show ?thesis ..
  qed
  then show "schema_inv ?d'" and "loans_evolve (db s) ?d'"
    by simp_all
qed

subsubsection \<open>A decision\<close>

lemma loans_decided_refl:
  assumes "loans d' = loans d"
  shows "loans_decided d d'"
  by (simp add: loans_decided_def assms)

lemma loans_decided_trans:
  assumes "loans_decided d d'" "loans_decided d' d''"
  shows "loans_decided d d''"
  unfolding loans_decided_def
proof (intro conjI allI impI)
  show "length (loans d'') = length (loans d)"
    using assms by (simp add: loans_decided_def)
next
  fix i assume i: "i < length (loans d)"
  with assms(1) have first: "loans d' ! i = loans d ! i \<or>
        (status (loans d ! i) = ''pending'' \<and>
         (loans d' ! i = (loans d ! i)\<lparr>status := ''approved''\<rparr> \<or>
          loans d' ! i = (loans d ! i)\<lparr>status := ''rejected''\<rparr>))"
    and i': "i < length (loans d')"
    by (simp_all add: loans_decided_def)
  from assms(2) i' have second: "loans d'' ! i = loans d' ! i \<or>
        (status (loans d' ! i) = ''pending'' \<and>
         (loans d'' ! i = (loans d' ! i)\<lparr>status := ''approved''\<rparr> \<or>
          loans d'' ! i = (loans d' ! i)\<lparr>status := ''rejected''\<rparr>))"
    by (simp add: loans_decided_def)
  from first second
  show "loans d'' ! i = loans d ! i \<or>
        (status (loans d ! i) = ''pending'' \<and>
         (loans d'' ! i = (loans d ! i)\<lparr>status := ''approved''\<rparr> \<or>
          loans d'' ! i = (loans d ! i)\<lparr>status := ''rejected''\<rparr>))"
    by auto
qed

lemma loans_decided_ids:
  assumes "loans_decided d d'"
  shows "map loan_id (loans d') = map loan_id (loans d)"
proof (rule nth_equalityI)
  show "length (map loan_id (loans d')) = length (map loan_id (loans d))"
    using assms by (simp add: loans_decided_def)
next
  fix i assume "i < length (map loan_id (loans d'))"
  then have i: "i < length (loans d)" "i < length (loans d')"
    using assms by (simp_all add: loans_decided_def)
  with assms have "loan_id (loans d' ! i) = loan_id (loans d ! i)"
    by (auto simp add: loans_decided_def)
  with i show "map loan_id (loans d') ! i = map loan_id (loans d) ! i"
    by simp
qed

lemma loans_decided_row:
  assumes dec: "loans_decided d d'" and l: "l \<in> set (loans d')"
  obtains r where "r \<in> set (loans d)"
    and "l = r \<or> (status r = ''pending'' \<and> (l = r\<lparr>status := ''approved''\<rparr>
                                               \<or> l = r\<lparr>status := ''rejected''\<rparr>))"
proof -
  from dec have len: "length (loans d') = length (loans d)"
    by (simp add: loans_decided_def)
  from l obtain i where i: "i < length (loans d)" and li: "l = loans d' ! i"
    unfolding in_set_conv_nth len by auto
  from dec i have "l = loans d ! i \<or>
        (status (loans d ! i) = ''pending'' \<and>
         (l = (loans d ! i)\<lparr>status := ''approved''\<rparr> \<or>
          l = (loans d ! i)\<lparr>status := ''rejected''\<rparr>))"
    unfolding li by (simp add: loans_decided_def)
  moreover from i have "loans d ! i \<in> set (loans d)" by simp
  ultimately show ?thesis using that by blast
qed

lemma loans_decided_evolve:
  assumes "loans_decided d d'"
  shows "loans_evolve d d'"
  unfolding loans_evolve_def
proof (intro conjI allI impI)
  show "length (loans d) \<le> length (loans d')"
    using assms by (simp add: loans_decided_def)
next
  fix i assume "i < length (loans d')" "length (loans d) \<le> i"
  with assms have False by (simp add: loans_decided_def)
  then show "status (loans d' ! i) = ''pending''"
    and "current_balance (loans d' ! i) = amount (loans d' ! i)" by simp_all
next
  fix i assume i: "i < length (loans d)"
  with assms have row: "loans d' ! i = loans d ! i \<or>
        (status (loans d ! i) = ''pending'' \<and>
         (loans d' ! i = (loans d ! i)\<lparr>status := ''approved''\<rparr> \<or>
          loans d' ! i = (loans d ! i)\<lparr>status := ''rejected''\<rparr>))"
    by (simp add: loans_decided_def)
  from row show "loan_id (loans d' ! i) = loan_id (loans d ! i)" by auto
  from row show "loan_user_id (loans d' ! i) = loan_user_id (loans d ! i)" by auto
  from row show "amount (loans d' ! i) = amount (loans d ! i)" by auto
  from row show "loan_term (loans d' ! i) = loan_term (loans d ! i)" by auto
  from row show "interest_rate (loans d' ! i) = interest_rate (loans d ! i)" by auto
  from row show "loan_created_at (loans d' ! i) = loan_created_at (loans d ! i)" by auto
  from row show "status_path (status (loans d ! i)) (status (loans d' ! i))"
    by (auto simp add: status_path_def)
qed

lemma store_constraints_decided:
  assumes sc: "store_constraints d" and dec: "loans_decided d d'"
    and d': "payments d' = payments d" "loans_loan_id_seq d' = loans_loan_id_seq d"
  shows "store_constraints d'"
proof -
  note ids = loans_decided_ids [OF dec]
  have row: "drawn_below (loan_id l) (loans_loan_id_seq d) \<and> loans_row l = Inr l"
    if "l \<in> set (loans d')" for l
  proof -
    from dec that obtain r where r: "r \<in> set (loans d)"
      and l: "l = r \<or> (status r = ''pending'' \<and> (l = r\<lparr>status := ''approved''\<rparr>
                                               \<or> l = r\<lparr>status := ''rejected''\<rparr>))"
      by (rule loans_decided_row)
    from sc r have old: "drawn_below (loan_id r) (loans_loan_id_seq d)" "loans_row r = Inr r"
      by (simp_all add: store_constraints_def)
    from l old loans_row_status [OF old(2)] show ?thesis by auto
  qed
  from sc row show ?thesis
    unfolding store_constraints_def ids d' by simp
qed

lemma schema_inv_decided:
  assumes inv: "schema_inv d" and dec: "loans_decided d d'"
    and d': "payments d' = payments d" "loans_loan_id_seq d' = loans_loan_id_seq d"
  shows "schema_inv d'"
proof -
  from inv have sc: "store_constraints d" by (simp add: schema_inv_def)
  have "store_constraints d'"
    using sc dec d' by (rule store_constraints_decided)
  moreover have "(status l = ''pending'' \<or> status l = ''approved'' \<or> status l = ''rejected''
        \<or> status l = ''paid'')
      \<and> numeric_cast 5 2 (Finite (min (5 + of_int (loan_term l) / 12) 15)) =
          Inr (interest_rate l)"
    if "l \<in> set (loans d')" for l
  proof -
    from dec that obtain r where r: "r \<in> set (loans d)"
      and l: "l = r \<or> (status r = ''pending'' \<and> (l = r\<lparr>status := ''approved''\<rparr>
                                               \<or> l = r\<lparr>status := ''rejected''\<rparr>))"
      by (rule loans_decided_row)
    from inv r have "(status r = ''pending'' \<or> status r = ''approved'' \<or> status r = ''rejected''
        \<or> status r = ''paid'')
      \<and> numeric_cast 5 2 (Finite (min (5 + of_int (loan_term r) / 12) 15)) = Inr (interest_rate r)"
      by (simp add: schema_inv_def)
    with l show ?thesis by auto
  qed
  ultimately show ?thesis
    by (simp add: schema_inv_def)
qed

lemma pending_loans_query_member:
  assumes "x \<in> set (pending_loans_query d)"
  shows "fst x \<in> set (loans d) \<and> status (fst x) = ''pending''"
  using assms by (auto simp add: pending_loans_query_def loans_join_users_def)

lemma update_loan_status_decided:
  assumes sc: "store_constraints d" and l: "l \<in> set (loans d)" "status l = ''pending''"
    and st: "new_status = ''approved'' \<or> new_status = ''rejected''"
  shows "loans_decided d (update_loan_status new_status (loan_id l) d)"
  unfolding loans_decided_def
proof (intro conjI allI impI)
  show "length (loans (update_loan_status new_status (loan_id l) d)) = length (loans d)"
    by (simp add: update_loan_status_def)
next
  fix i assume i: "i < length (loans d)"
  from sc have dist: "distinct (map loan_id (loans d))"
    by (simp add: store_constraints_def)
  have "loans d ! i = l" if "loan_id (loans d ! i) = loan_id l"
    using dist i l(1) that by (simp add: same_id_same_row)
  with st l(2) i
  show "loans (update_loan_status new_status (loan_id l) d) ! i = loans d ! i \<or>
        (status (loans d ! i) = ''pending'' \<and>
         (loans (update_loan_status new_status (loan_id l) d) ! i =
            (loans d ! i)\<lparr>status := ''approved''\<rparr> \<or>
          loans (update_loan_status new_status (loan_id l) d) ! i =
            (loans d ! i)\<lparr>status := ''rejected''\<rparr>))"
    by (auto simp add: update_loan_status_def)
qed

lemma approve_loans_decided:
  assumes sc: "store_constraints (db s)"
  shows "loans_decided (db s) (db (snd (approve_loans choice_in action s)))"
proof (cases "\<exists>c. choice_in = Some c \<and> 0 \<le> c - 1 \<and> c - 1 < int (length (pending_loans_query (db s)))
                  \<and> (action = ''a'' \<or> action = ''r'')")
  case True
  then obtain c where c: "choice_in = Some c" "0 \<le> c - 1"
    "c - 1 < int (length (pending_loans_query (db s)))"
    and act: "action = ''a'' \<or> action = ''r''" by blast
  define l where "l = fst (pending_loans_query (db s) ! nat (c - 1))"
  from c have "pending_loans_query (db s) ! nat (c - 1) \<in> set (pending_loans_query (db s))"
    by (intro nth_mem) linarith
  then have l: "l \<in> set (loans (db s))" "status l = ''pending''"
    unfolding l_def by (simp_all add: pending_loans_query_member)
  from c have ne: "pending_loans_query (db s) \<noteq> []" by auto
  have "db (snd (approve_loans choice_in action s)) =
          update_loan_status (if action = ''a'' then ''approved'' else ''rejected'') (loan_id l) (db s)"
    using c act ne by (auto simp add: approve_loans_def approve_loans_decide_def Let_def l_def)
  moreover have "loans_decided (db s)
      (update_loan_status (if action = ''a'' then ''approved'' else ''rejected'') (loan_id l) (db s))"
    using sc l by (rule update_loan_status_decided) simp
  ultimately show ?thesis by simp
next
  case False
  then have "db (snd (approve_loans choice_in action s)) = db s"
    by (auto simp add: approve_loans_def approve_loans_decide_def Let_def split: option.splits)
  then show ?thesis by (simp add: loans_decided_refl)
qed

lemma approve_loans_frame:
  "payments (db (snd (approve_loans choice_in action s))) = payments (db s)"
  "loans_loan_id_seq (db (snd (approve_loans choice_in action s))) = loans_loan_id_seq (db s)"
  "users (db (snd (approve_loans choice_in action s))) = users (db s)"
  "current_user (snd (approve_loans choice_in action s)) = current_user s"
  by (auto simp add: approve_loans_def approve_loans_decide_def Let_def update_loan_status_def
      split: option.splits prod.splits)

lemma approve_loans_schema:
  assumes inv: "schema_inv (db s)"
  shows "schema_inv (db (snd (approve_loans choice_in action s)))"
proof -
  from inv have sc: "store_constraints (db s)" by (simp add: schema_inv_def)
  show ?thesis
    using inv approve_loans_decided [OF sc] approve_loans_frame(1,2)
    by (rule schema_inv_decided)
qed

subsubsection \<open>The operations and the menus\<close>

lemma admin_menu_schema:
  assumes "schema_inv (db s)"
  shows "schema_inv (db (admin_menu s cs)) \<and> loans_decided (db s) (db (admin_menu s cs))
       \<and> payments (db (admin_menu s cs)) = payments (db s)
       \<and> loans_loan_id_seq (db (admin_menu s cs)) = loans_loan_id_seq (db s)"
  using assms
proof (induction s cs rule: admin_menu.induct)
  case (2 s choice_in action cs)
  let ?s = "snd (approve_loans choice_in action s)"
  from 2(2) have sc: "store_constraints (db s)" by (simp add: schema_inv_def)
  have inv: "schema_inv (db ?s)"
    using 2(2) by (rule approve_loans_schema)
  from 2(1) [OF inv] have rest: "schema_inv (db (admin_menu ?s cs))"
    "loans_decided (db ?s) (db (admin_menu ?s cs))"
    "payments (db (admin_menu ?s cs)) = payments (db ?s)"
    "loans_loan_id_seq (db (admin_menu ?s cs)) = loans_loan_id_seq (db ?s)"
    by simp_all
  from approve_loans_decided [OF sc] rest(2)
  have "loans_decided (db s) (db (admin_menu ?s cs))"
    by (rule loans_decided_trans)
  with rest show ?case
    by (simp add: approve_loans_frame)
qed (simp_all add: loans_decided_refl)

lemma register_frame:
  "loans (db (snd (register name password confirm_password pw_hash now s))) = loans (db s)"
  "payments (db (snd (register name password confirm_password pw_hash now s))) = payments (db s)"
  "loans_loan_id_seq (db (snd (register name password confirm_password pw_hash now s))) =
     loans_loan_id_seq (db s)"
  by (simp_all add: register_def User_save_def User_create_def Let_def)

lemma login_frame: "db (snd (login name pw_ok s)) = db s"
  by (simp add: login_def split: option.splits)

lemma step_schema:
  assumes inv: "schema_inv (db s)"
  shows "schema_inv (db (step s c))" and "loans_evolve (db s) (db (step s c))"
proof -
  have "schema_inv (db (step s c)) \<and> loans_evolve (db s) (db (step s c))"
  proof (cases "current_user s")
    case None
    show ?thesis
    proof (cases c)
      case (Login name pw_ok)
      with None inv show ?thesis
        by (simp add: step_def login_frame loans_evolve_refl)
    next
      case (Register name password confirm_password pw_hash now)
      with None inv show ?thesis
        by (simp add: step_def schema_inv_cong [OF register_frame] loans_evolve_refl
            register_frame)
    qed (use None inv in \<open>simp_all add: step_def loans_evolve_refl\<close>)
  next
    case (Some user)
    show ?thesis
    proof (cases c)
      case (ApplyForLoan amount_in term_in now)
      with Some show ?thesis
        by (simp add: step_def apply_for_loan_schema [OF inv])
    next
      case (MakePayment choice_in amount_in now)
      with Some show ?thesis
        by (simp add: step_def make_payment_schema [OF inv])
    next
      case (AdminFunctions cs)
      with Some inv show ?thesis
        using admin_menu_schema [OF inv, of cs]
        by (simp add: step_def loans_decided_evolve loans_evolve_refl)
    qed (use Some inv in \<open>simp_all add: step_def loans_evolve_refl\<close>)
  qed
  then show "schema_inv (db (step s c))" and "loans_evolve (db s) (db (step s c))"
    by simp_all
qed

lemma run_schema:
  assumes "schema_inv (db s)"
  shows "schema_inv (db (run s cs))"
  using assms by (induction s cs rule: run.induct) (simp_all add: step_schema)

lemma reachable_schema:
  "schema_inv (db (run (LoanApplicationSystem_init None admin_hash t0) cs))"
  by (rule run_schema) (rule schema_inv_init)

subsection \<open>The outcome of make_payment\<close>

lemma make_payment_successful:
  assumes sc: "store_constraints (db s)"
    and ok: "fst (make_payment choice_in amount_in now s) = ''Payment successful''"
  obtains loan k amt b v where "selected_loan s choice_in = Some loan" "loan_id loan = Some k"
    "status loan = ''approved''" "amount_in = Some amt" "\<not> float_le amt (Finite 0)"
    "\<not> float_gt amt (current_balance loan)"
    "numeric_cast 10 2 (float_sub (current_balance loan) amt) = Inr b"
    "numeric_cast 10 2 amt = Inr v"
    "make_payment choice_in amount_in now s =
       (''Payment successful'',
        s\<lparr>db := (db s)
          \<lparr>loans := map (\<lambda>r. if loan_id r = Some k
                               then r\<lparr>current_balance := b,
                                      status := (if float_eq (float_sub (current_balance loan) amt)
                                                       (Finite 0)
                                                 then ''paid'' else ''approved'')\<rparr>
                               else r) (loans (db s)),
           payments := payments (db s) @
             [\<lparr>payment_id = Some (payments_payment_id_seq (db s)),
               payment_loan_id = Some k, payment_amount = v, payment_date = now\<rparr>],
           payments_payment_id_seq := payments_payment_id_seq (db s) + 1\<rparr>\<rparr>)"
proof -
  have "payable s choice_in amount_in"
  proof (rule ccontr)
    assume "\<not> payable s choice_in amount_in"
    from make_payment_not_payable(2) [OF this, of now] ok show False by simp
  qed
  then obtain loan amt where sel: "selected_loan s choice_in = Some loan"
    and st: "status loan = ''approved''" and a: "amount_in = Some amt"
    and pos: "\<not> float_le amt (Finite 0)" and le: "\<not> float_gt amt (current_balance loan)"
    unfolding payable_def by blast
  from selected_loan_has_id [OF sc sel] obtain k where k: "loan_id loan = Some k" ..
  note eq = make_payment_checked [OF sc sel k st pos le, of now]
  from ok obtain b where b: "numeric_cast 10 2 (float_sub (current_balance loan) amt) = Inr b"
    unfolding a eq by (cases "numeric_cast 10 2 (float_sub (current_balance loan) amt)")
      (simp_all add: error_line_def)
  from ok obtain v where v: "numeric_cast 10 2 amt = Inr v"
    unfolding a eq b by (cases "numeric_cast 10 2 amt") (simp_all add: error_line_def)
  show ?thesis
    using sel k st a pos le b v by (rule that) (simp add: a eq b v)
qed

text \<open>A payment of an amount with at most two decimals on a balance that is a number:
  the conversions change nothing.\<close>

lemma make_payment_cents:
  assumes sc: "store_constraints (db s)" and sel: "selected_loan s choice_in = Some loan"
    and k: "loan_id loan = Some k" and st: "status loan = ''approved''"
    and bal: "current_balance loan = Finite b" and a: "is_cents a" "0 < a" "a \<le> b"
  shows "make_payment choice_in (Some (Finite a)) now s =
     (''Payment successful'',
      s\<lparr>db := (db s)
        \<lparr>loans := map (\<lambda>r. if loan_id r = Some k
                             then r\<lparr>current_balance := Finite (b - a),
                                    status := (if b - a = 0 then ''paid'' else ''approved'')\<rparr>
                             else r) (loans (db s)),
         payments := payments (db s) @
           [\<lparr>payment_id = Some (payments_payment_id_seq (db s)),
             payment_loan_id = Some k, payment_amount = Finite a, payment_date = now\<rparr>],
         payments_payment_id_seq := payments_payment_id_seq (db s) + 1\<rparr>\<rparr>)"
proof -
  from stored_balance_cases [OF sc selected_loan_stored [OF sel]] bal
  have b: "is_cents b" "\<bar>b\<bar> < 10 ^ 8" by simp_all
  from a(2,3) b(2) have "\<bar>b - a\<bar> < 10 ^ 8" "\<bar>a\<bar> < 10 ^ 8" by simp_all
  with is_cents_diff [OF b(1) a(1)] a(1)
  have casts: "numeric_cast 10 2 (Finite (b - a)) = Inr (Finite (b - a))"
    "numeric_cast 10 2 (Finite a) = Inr (Finite a)"
    by (simp_all add: numeric_cast_cents)
  have pos: "\<not> float_le (Finite a) (Finite 0)"
    and le: "\<not> float_gt (Finite a) (current_balance loan)"
    using a(2,3) by (simp_all add: float_le_def float_gt_def bal)
  show ?thesis
    unfolding make_payment_checked [OF sc sel k st pos le]
    by (simp add: bal float_sub_def casts)
qed

lemma payable_cents_iff:
  assumes sel: "selected_loan s choice_in = Some loan" and bal: "current_balance loan = Finite b"
  shows "payable s choice_in (Some (Finite a)) \<longleftrightarrow> status loan = ''approved'' \<and> 0 < a \<and> a \<le> b"
  by (auto simp add: payable_def sel bal float_le_def float_gt_def)

subsection \<open>The listing after a payment\<close>

lemma user_loans_written:
  assumes "loans d' = map (\<lambda>r. if loan_id r = Some k then r\<lparr>current_balance := b, status := st\<rparr>
                                else r) (loans d)"
  shows "Loan_get_user_loans d' uid =
         map (\<lambda>r. if loan_id r = Some k then r\<lparr>current_balance := b, status := st\<rparr> else r)
           (Loan_get_user_loans d uid)"
proof -
  let ?f = "\<lambda>r. if loan_id r = Some k then r\<lparr>current_balance := b, status := st\<rparr> else r"
  have key: "- loan_created_at (?f r) = - loan_created_at r" for r
    by simp
  have "filter (\<lambda>r. uid \<noteq> None \<and> loan_user_id r = uid) (map ?f (loans d)) =
        map ?f (filter (\<lambda>r. uid \<noteq> None \<and> loan_user_id r = uid) (loans d))"
    by (induction "loans d") (simp_all add: filter_map comp_def)
  then show ?thesis
    unfolding Loan_get_user_loans_def order_by_desc_def assms
    by (simp only: sort_key_map [of "\<lambda>r. - loan_created_at r" ?f, OF key])
qed

lemma selected_after_written:
  assumes sel: "selected_loan s choice_in = Some loan" and k: "loan_id loan = Some k"
    and s': "current_user s' = current_user s"
      "loans (db s') = map (\<lambda>r. if loan_id r = Some k
                                 then r\<lparr>current_balance := b, status := st\<rparr> else r)
                         (loans (db s))"
  shows "selected_loan s' choice_in = Some (loan\<lparr>current_balance := b, status := st\<rparr>)"
proof -
  from selected_loan_SomeD [OF sel] obtain user c where u: "current_user s = Some user"
    and c: "choice_in = Some c" "1 \<le> c"
      "c \<le> int (length (Loan_get_user_loans (db s) (user_id user)))"
    and l: "loan = Loan_get_user_loans (db s) (user_id user) ! nat (c - 1)"
    by blast
  let ?f = "\<lambda>r. if loan_id r = Some k then r\<lparr>current_balance := b, status := st\<rparr> else r"
  have listing: "Loan_get_user_loans (db s') (user_id user) =
      map ?f (Loan_get_user_loans (db s) (user_id user))"
    using s'(2) by (rule user_loans_written)
  from c have n: "nat (c - 1) < length (Loan_get_user_loans (db s) (user_id user))"
    by linarith
  then have ne: "Loan_get_user_loans (db s) (user_id user) \<noteq> []"
    by auto
  have "selected_loan s' choice_in =
      Some (map ?f (Loan_get_user_loans (db s) (user_id user)) ! nat (c - 1))"
    using c ne by (simp add: selected_loan_def make_payment_select_def s'(1) u listing)
  also have "map ?f (Loan_get_user_loans (db s) (user_id user)) ! nat (c - 1) = ?f loan"
    using n by (simp add: l)
  also have "?f loan = loan\<lparr>current_balance := b, status := st\<rparr>"
    by (simp add: k)
  finally show ?thesis .
qed

lemma selected_after_cents:
  assumes sc: "store_constraints (db s)" and sel: "selected_loan s choice_in = Some loan"
    and st: "status loan = ''approved''"
    and bal: "current_balance loan = Finite b" and a: "is_cents a" "0 < a" "a \<le> b"
  shows "selected_loan (snd (make_payment choice_in (Some (Finite a)) now s)) choice_in =
           Some (loan\<lparr>current_balance := Finite (b - a),
                      status := (if b - a = 0 then ''paid'' else ''approved'')\<rparr>)"
proof -
  from selected_loan_has_id [OF sc sel] obtain k where k: "loan_id loan = Some k" ..
  define s' where "s' = snd (make_payment choice_in (Some (Finite a)) now s)"
  have "current_user s' = current_user s"
    and "loans (db s') =
      map (\<lambda>r. if loan_id r = Some k
                then r\<lparr>current_balance := Finite (b - a),
                       status := (if b - a = 0 then ''paid'' else ''approved'')\<rparr>
                else r) (loans (db s))"
    by (simp_all add: s'_def make_payment_cents [OF sc sel k st bal a])
  with sel k show ?thesis
    unfolding s'_def by (rule selected_after_written)
qed


lemma approved_session_constraints:
  assumes "numeric_cast 10 2 p0 = Inr p0"
  shows "store_constraints (db (approved_session p0))"
  using assms
  by (simp add: approved_session_eq store_constraints_def alice_ledger_def approved_loan_def
      loans_row_stored_iff)
    (simp add: number_defs)

lemma approved_session_selected:
  assumes "numeric_cast 10 2 p0 = Inr p0"
  shows "selected_loan (approved_session p0) (Some 1) = Some (approved_loan p0)"
  by (simp add: approved_session_eq [OF assms] selected_loan_def make_payment_select_def
      Loan_get_user_loans_def order_by_desc_def alice_def alice_ledger_def approved_loan_def)

lemma approved_session_listing:
  assumes "numeric_cast 10 2 p0 = Inr p0"
  shows "make_payment_select (approved_session p0) = Inr [approved_loan p0]"
  by (simp add: approved_session_eq [OF assms] make_payment_select_def Loan_get_user_loans_def
      order_by_desc_def alice_def alice_ledger_def approved_loan_def)

lemmas payment_defs =
  make_payment_def make_payment_select_def make_payment_pay_def alice_def alice_ledger_def
  approved_loan_def error_line_def




text \<open>
  Claim C10. A successful \<^verbatim>\<open>make_payment\<close> leaves the session's user, the table of users
  and the number and order of the loan rows as they were; every loan row keeps its id,
  owner, principal, term, interest rate and creation time; every row but the selected
  loan's is left as it is; and the payment rows that existed are all still there, unchanged,
  followed by exactly one new row.
\<close>

theorem C10_payment_frame:
  assumes sc: "store_constraints (db s)"
    and ok: "make_payment choice_in amount_in now s = (''Payment successful'', s')"
  shows "current_user s' = current_user s
     \<and> users (db s') = users (db s)
     \<and> length (loans (db s')) = length (loans (db s))
     \<and> (\<forall>i < length (loans (db s)).
          loan_id (loans (db s') ! i) = loan_id (loans (db s) ! i)
          \<and> loan_user_id (loans (db s') ! i) = loan_user_id (loans (db s) ! i)
          \<and> amount (loans (db s') ! i) = amount (loans (db s) ! i)
          \<and> loan_term (loans (db s') ! i) = loan_term (loans (db s) ! i)
          \<and> interest_rate (loans (db s') ! i) = interest_rate (loans (db s) ! i)
          \<and> loan_created_at (loans (db s') ! i) = loan_created_at (loans (db s) ! i)
          \<and> (selected_loan s choice_in \<noteq> Some (loans (db s) ! i) \<longrightarrow>
                loans (db s') ! i = loans (db s) ! i))
     \<and> (\<exists>p. payments (db s') = payments (db s) @ [p])"
proof -
  from ok have "fst (make_payment choice_in amount_in now s) = ''Payment successful''"
    by simp
  with sc obtain loan k amt b v where sel: "selected_loan s choice_in = Some loan"
    and k: "loan_id loan = Some k"
    and eq: "make_payment choice_in amount_in now s =
       (''Payment successful'',
        s\<lparr>db := (db s)
          \<lparr>loans := map (\<lambda>r. if loan_id r = Some k
                               then r\<lparr>current_balance := b,
                                      status := (if float_eq (float_sub (current_balance loan) amt)
                                                       (Finite 0)
                                                 then ''paid'' else ''approved'')\<rparr>
                               else r) (loans (db s)),
           payments := payments (db s) @
             [\<lparr>payment_id = Some (payments_payment_id_seq (db s)),
               payment_loan_id = Some k, payment_amount = v, payment_date = now\<rparr>],
           payments_payment_id_seq := payments_payment_id_seq (db s) + 1\<rparr>\<rparr>)"
    by (rule make_payment_successful)
  have stored: "loan \<in> set (loans (db s))"
    using sel by (rule selected_loan_stored)
  define st where "st = (if float_eq (float_sub (current_balance loan) amt) (Finite 0)
                         then ''paid'' else ''approved'')"
  have s': "s' = s\<lparr>db := (db s)
          \<lparr>loans := map (\<lambda>r. if loan_id r = Some k
                               then r\<lparr>current_balance := b, status := st\<rparr> else r)
                      (loans (db s)),
           payments := payments (db s) @
             [\<lparr>payment_id = Some (payments_payment_id_seq (db s)),
               payment_loan_id = Some k, payment_amount = v, payment_date = now\<rparr>],
           payments_payment_id_seq := payments_payment_id_seq (db s) + 1\<rparr>\<rparr>"
    using ok unfolding eq st_def by simp
  have rows: "loan_id (loans (db s') ! i) = loan_id (loans (db s) ! i)
          \<and> loan_user_id (loans (db s') ! i) = loan_user_id (loans (db s) ! i)
          \<and> amount (loans (db s') ! i) = amount (loans (db s) ! i)
          \<and> loan_term (loans (db s') ! i) = loan_term (loans (db s) ! i)
          \<and> interest_rate (loans (db s') ! i) = interest_rate (loans (db s) ! i)
          \<and> loan_created_at (loans (db s') ! i) = loan_created_at (loans (db s) ! i)
          \<and> (selected_loan s choice_in \<noteq> Some (loans (db s) ! i) \<longrightarrow>
                loans (db s') ! i = loans (db s) ! i)"
    if i: "i < length (loans (db s))" for i
  proof (cases "loan_id (loans (db s) ! i) = Some k")
    case True
    from sc have "distinct (map loan_id (loans (db s)))"
      by (simp add: store_constraints_def)
    moreover have "loans (db s) ! i \<in> set (loans (db s))"
      using i by (rule nth_mem)
    ultimately have "loans (db s) ! i = loan"
      using stored True k by (simp add: same_id_same_row)
    then show ?thesis
      using i True by (simp add: s' sel)
  next
    case False
    then show ?thesis
      using i by (simp add: s')
  qed
  show ?thesis
    using rows by (simp add: s')
qed

theorem C10_payment_frame_witness:
  "store_constraints (db (approved_session (Finite 100)))
   \<and> fst (make_payment (Some 1) (Some (Finite 40)) 3 (approved_session (Finite 100))) =
       ''Payment successful''
   \<and> users (db (snd (make_payment (Some 1) (Some (Finite 40)) 3 (approved_session (Finite 100))))) =
       users (db (approved_session (Finite 100)))
   \<and> 0 < length (loans (db (approved_session (Finite 100))))
   \<and> amount (loans (db (snd (make_payment (Some 1) (Some (Finite 40)) 3
                               (approved_session (Finite 100))))) ! 0) =
       amount (loans (db (approved_session (Finite 100))) ! 0)
   \<and> (\<exists>p. payments (db (snd (make_payment (Some 1) (Some (Finite 40)) 3
                               (approved_session (Finite 100))))) =
            payments (db (approved_session (Finite 100))) @ [p])"
proof -
  have ok: "make_payment (Some 1) (Some (Finite 40)) 3 (approved_session (Finite 100)) =
      (''Payment successful'',
       snd (make_payment (Some 1) (Some (Finite 40)) 3 (approved_session (Finite 100))))"
    by (simp add: approved_session_eq [OF stored_100] payment_defs entity_defs number_defs)
  have n: "0 < length (loans (db (approved_session (Finite 100))))"
    by (simp add: approved_session_eq [OF stored_100] alice_ledger_def)
  note sc = approved_session_constraints [OF stored_100]
  from C10_payment_frame [OF sc ok] ok n sc
  show ?thesis by (metis fst_conv)
qed

text \<open>
  Claim C3, as the code has it. When the two payments of 70 on an approved loan with
  balance 100 run one after the other, the second reading the loan after the first has
  written, the first succeeds, leaves the balance 30 and adds one payment row, and the
  second is refused and changes nothing. The program takes no lock and opens no
  transaction: see the counterexample for two sessions that both read before either
  writes.
\<close>

theorem C3_payments_in_turn:
  assumes sc: "store_constraints (db s)" and sel: "selected_loan s choice_in = Some loan"
    and st: "status loan = ''approved''" and bal: "current_balance loan = Finite 100"
    and s1: "s1 = snd (make_payment choice_in (Some (Finite 70)) t1 s)"
  shows "fst (make_payment choice_in (Some (Finite 70)) t1 s) = ''Payment successful''
     \<and> selected_loan s1 choice_in = Some (loan\<lparr>current_balance := Finite 30\<rparr>)
     \<and> payments (db s1) = payments (db s) @
          [\<lparr>payment_id = Some (payments_payment_id_seq (db s)), payment_loan_id = loan_id loan,
            payment_amount = Finite 70, payment_date = t1\<rparr>]
     \<and> make_payment choice_in (Some (Finite 70)) t2 s1 = (''Payment exceeds current balance'', s1)"
proof -
  have amt: "is_cents 70" "(0::rat) < 70" "(70::rat) \<le> 100"
    by (simp_all add: is_cents_def)
  from selected_loan_has_id [OF sc sel] obtain k where k: "loan_id loan = Some k" ..
  note eq = make_payment_cents [OF sc sel k st bal amt]
  have first: "fst (make_payment choice_in (Some (Finite 70)) t1 s) = ''Payment successful''"
    by (simp add: eq)
  have "selected_loan s1 choice_in =
      Some (loan\<lparr>current_balance := Finite (100 - 70),
                 status := (if (100::rat) - 70 = 0 then ''paid'' else ''approved'')\<rparr>)"
    unfolding s1 using sc sel st bal amt by (rule selected_after_cents)
  also have "loan\<lparr>current_balance := Finite (100 - 70),
                 status := (if (100::rat) - 70 = 0 then ''paid'' else ''approved'')\<rparr> =
      loan\<lparr>current_balance := Finite 30\<rparr>"
    using st by simp
  finally have sel1: "selected_loan s1 choice_in = Some (loan\<lparr>current_balance := Finite 30\<rparr>)" .
  have rows: "payments (db s1) = payments (db s) @
          [\<lparr>payment_id = Some (payments_payment_id_seq (db s)), payment_loan_id = loan_id loan,
            payment_amount = Finite 70, payment_date = t1\<rparr>]"
    unfolding s1 eq by (simp add: k)
  have second: "make_payment choice_in (Some (Finite 70)) t2 s1 =
      (''Payment exceeds current balance'', s1)"
    by (simp add: make_payment_selected [OF sel1] st Loan_make_payment_refused
        float_le_def float_gt_def)
  from first sel1 rows second show ?thesis by simp
qed

theorem C3_payments_in_turn_witness:
  "store_constraints (db (approved_session (Finite 100)))
   \<and> selected_loan (approved_session (Finite 100)) (Some 1) = Some (approved_loan (Finite 100))
   \<and> fst (make_payment (Some 1) (Some (Finite 70)) 3 (approved_session (Finite 100))) =
       ''Payment successful''
   \<and> payments (db (snd (make_payment (Some 1) (Some (Finite 70)) 3
                          (approved_session (Finite 100))))) =
       [\<lparr>payment_id = Some 1, payment_loan_id = Some 1, payment_amount = Finite 70,
         payment_date = 3\<rparr>]
   \<and> make_payment (Some 1) (Some (Finite 70)) 4
       (snd (make_payment (Some 1) (Some (Finite 70)) 3 (approved_session (Finite 100)))) =
       (''Payment exceeds current balance'',
        snd (make_payment (Some 1) (Some (Finite 70)) 3 (approved_session (Finite 100))))"
proof -
  note sc = approved_session_constraints [OF stored_100]
  note sel = approved_session_selected [OF stored_100]
  have st: "status (approved_loan (Finite 100)) = ''approved''"
    and bal: "current_balance (approved_loan (Finite 100)) = Finite 100"
    and k: "loan_id (approved_loan (Finite 100)) = Some 1"
    by (simp_all add: approved_loan_def)
  have empty: "payments (db (approved_session (Finite 100))) = []"
    "payments_payment_id_seq (db (approved_session (Finite 100))) = 1"
    by (simp_all add: approved_session_eq [OF stored_100] alice_ledger_def)
  from C3_payments_in_turn [OF sc sel st bal refl, of 3 4] sc sel
  show ?thesis by (simp add: empty k)
qed

text \<open>Claim C3 as the specification states it fails. Two sessions of the same customer
  each list her loans, an approved loan with balance 100, before either answers the
  prompts. Each then pays 70 on the object it read: both payments succeed, two payment
  rows are written, and the stored balance is 30.\<close>

theorem C3_counterexample:
  "make_payment_select (approved_session (Finite 100)) = Inr [approved_loan (Finite 100)]
   \<and> fst (make_payment_pay [approved_loan (Finite 100)] (Some 1) (Some (Finite 70)) 3
            (db (approved_session (Finite 100)))) =
       ''Payment successful''
   \<and> fst (make_payment_pay [approved_loan (Finite 100)] (Some 1) (Some (Finite 70)) 4
        (snd (make_payment_pay [approved_loan (Finite 100)] (Some 1) (Some (Finite 70)) 3
               (db (approved_session (Finite 100)))))) = ''Payment successful''
   \<and> payments (snd (make_payment_pay [approved_loan (Finite 100)] (Some 1) (Some (Finite 70)) 4
        (snd (make_payment_pay [approved_loan (Finite 100)] (Some 1) (Some (Finite 70)) 3
               (db (approved_session (Finite 100))))))) =
       [\<lparr>payment_id = Some 1, payment_loan_id = Some 1, payment_amount = Finite 70,
         payment_date = 3\<rparr>,
        \<lparr>payment_id = Some 2, payment_loan_id = Some 1, payment_amount = Finite 70,
         payment_date = 4\<rparr>]
   \<and> map current_balance
       (loans (snd (make_payment_pay [approved_loan (Finite 100)] (Some 1) (Some (Finite 70)) 4
        (snd (make_payment_pay [approved_loan (Finite 100)] (Some 1) (Some (Finite 70)) 3
               (db (approved_session (Finite 100))))))))
       = [Finite 30]"
  by (simp add: approved_session_listing [OF stored_100])
    (simp add: approved_session_eq [OF stored_100] payment_defs entity_defs number_defs)

text \<open>
  Claim C4, as the code has it. In every state the program reaches with its operations
  run one at a time, every loan has one of the four statuses, and across one more turn of
  the menu every loan keeps its place and id and its status stays or makes one move along
  pending, approved, paid or pending, rejected; a rejected or paid loan stays as it is; a
  loan created in that turn is pending. \<^verbatim>\<open>approve_loans\<close> offers the pending loans only
  and leaves every loan that is not pending as it is, whatever is typed: there is no
  refusal of its own for a decided loan. The decision is written to the loan picked from
  the list read before the prompt, without a look at its status then: see the
  counterexample for two administrators.
\<close>

theorem C4_status_moves_forward:
  assumes s: "s = run (LoanApplicationSystem_init None admin_hash t0) cmds"
  shows "(\<forall>l \<in> set (loans (db s)). status l = ''pending'' \<or> status l = ''approved''
            \<or> status l = ''rejected'' \<or> status l = ''paid'')
     \<and> (\<forall>i < length (loans (db s)).
            i < length (loans (db (step s c)))
          \<and> loan_id (loans (db (step s c)) ! i) = loan_id (loans (db s) ! i)
          \<and> status_path (status (loans (db s) ! i)) (status (loans (db (step s c)) ! i))
          \<and> (status (loans (db s) ! i) = ''rejected'' \<or> status (loans (db s) ! i) = ''paid'' \<longrightarrow>
               status (loans (db (step s c)) ! i) = status (loans (db s) ! i))
          \<and> (status (loans (db s) ! i) \<noteq> ''pending'' \<longrightarrow>
               loans (db (snd (approve_loans choice_in action s))) ! i = loans (db s) ! i))
     \<and> (\<forall>i < length (loans (db (step s c))). length (loans (db s)) \<le> i \<longrightarrow>
            status (loans (db (step s c)) ! i) = ''pending'')
     \<and> (\<forall>x \<in> set (pending_loans_query (db s)). status (fst x) = ''pending'')"
proof -
  have inv: "schema_inv (db s)"
    unfolding s by (rule reachable_schema)
  then have sc: "store_constraints (db s)"
    by (simp add: schema_inv_def)
  from step_schema(2) [OF inv, of c] have ev: "loans_evolve (db s) (db (step s c))" .
  note dec = approve_loans_decided [OF sc, of choice_in action]
  have known: "\<forall>l \<in> set (loans (db s)). status l = ''pending'' \<or> status l = ''approved''
            \<or> status l = ''rejected'' \<or> status l = ''paid''"
    using inv by (simp add: schema_inv_def)
  have old: "i < length (loans (db (step s c)))
          \<and> loan_id (loans (db (step s c)) ! i) = loan_id (loans (db s) ! i)
          \<and> status_path (status (loans (db s) ! i)) (status (loans (db (step s c)) ! i))
          \<and> (status (loans (db s) ! i) = ''rejected'' \<or> status (loans (db s) ! i) = ''paid'' \<longrightarrow>
               status (loans (db (step s c)) ! i) = status (loans (db s) ! i))
          \<and> (status (loans (db s) ! i) \<noteq> ''pending'' \<longrightarrow>
               loans (db (snd (approve_loans choice_in action s))) ! i = loans (db s) ! i)"
    if i: "i < length (loans (db s))" for i
  proof -
    from ev i have len: "i < length (loans (db (step s c)))"
      and id: "loan_id (loans (db (step s c)) ! i) = loan_id (loans (db s) ! i)"
      and path: "status_path (status (loans (db s) ! i)) (status (loans (db (step s c)) ! i))"
      by (simp_all add: loans_evolve_def)
    from path have final: "status (loans (db s) ! i) = ''rejected''
        \<or> status (loans (db s) ! i) = ''paid'' \<longrightarrow>
          status (loans (db (step s c)) ! i) = status (loans (db s) ! i)"
      by (auto simp add: status_path_def)
    from dec i have "status (loans (db s) ! i) \<noteq> ''pending'' \<longrightarrow>
          loans (db (snd (approve_loans choice_in action s))) ! i = loans (db s) ! i"
      by (auto simp add: loans_decided_def)
    with len id path final show ?thesis by simp
  qed
  have new: "\<forall>i < length (loans (db (step s c))). length (loans (db s)) \<le> i \<longrightarrow>
            status (loans (db (step s c)) ! i) = ''pending''"
    using ev by (simp add: loans_evolve_def)
  have offered: "\<forall>x \<in> set (pending_loans_query (db s)). status (fst x) = ''pending''"
    by (simp add: pending_loans_query_member)
  from known old new offered show ?thesis by blast
qed

theorem C4_status_moves_forward_witness:
  "approved_session (Finite 100) =
     run (LoanApplicationSystem_init None ''hash0'' 0) (approval_script (Finite 100))
   \<and> loans (db (approved_session (Finite 100))) = [approved_loan (Finite 100)]
   \<and> status (loans (db (approved_session (Finite 100))) ! 0) \<noteq> ''pending''
   \<and> loans (db (snd (approve_loans (Some 1) ''r'' (approved_session (Finite 100))))) ! 0 =
       loans (db (approved_session (Finite 100))) ! 0
   \<and> status (loans (db (step (approved_session (Finite 100))
                           (MakePayment (Some 1) (Some (Finite 100)) 3))) ! 0) = ''paid''
   \<and> status_path (status (loans (db (approved_session (Finite 100))) ! 0))
       (status (loans (db (step (approved_session (Finite 100))
                             (MakePayment (Some 1) (Some (Finite 100)) 3))) ! 0))
   \<and> paid_session =
       run (LoanApplicationSystem_init None ''hash0'' 0)
         (approval_script (Finite 100) @ [MakePayment (Some 1) (Some (Finite 100)) 3])
   \<and> status (loans (db paid_session) ! 0) = ''paid''
   \<and> status (loans (db (step paid_session (MakePayment (Some 1) (Some (Finite 1)) 9))) ! 0) =
       ''paid''
   \<and> applied_session =
       run (LoanApplicationSystem_init None ''hash0'' 0) (take 3 (approval_script (Finite 100)))
   \<and> pending_loans_query (db applied_session) =
       [((approved_loan (Finite 100))\<lparr>status := ''pending''\<rparr>, ''alice'')]
   \<and> status (fst ((approved_loan (Finite 100))\<lparr>status := ''pending''\<rparr>, ''alice'')) = ''pending''
   \<and> length (loans (db (step (approved_session (Finite 100))
                           (ApplyForLoan (Some (Finite 50)) (Some 12) 9)))) = 2
   \<and> status (loans (db (step (approved_session (Finite 100))
                           (ApplyForLoan (Some (Finite 50)) (Some 12) 9))) ! 1) = ''pending''"
proof -
  note approved_eq = approved_session_eq [OF stored_100]
  note paid_inst = C4_status_moves_forward [OF paid_session_reached,
      where c = "MakePayment (Some 1) (Some (Finite 1)) 9"]
  have paid_now: "status (loans (db paid_session) ! 0) = ''paid''"
    "0 < length (loans (db paid_session))"
    by (simp_all add: paid_session_eq alice_ledger_def)
  from paid_inst paid_now
  have paid_stays:
    "status (loans (db (step paid_session (MakePayment (Some 1) (Some (Finite 1)) 9))) ! 0) =
      ''paid''"
    by simp
  note applied_inst = C4_status_moves_forward [OF applied_session_reached]
  have offered: "pending_loans_query (db applied_session) =
       [((approved_loan (Finite 100))\<lparr>status := ''pending''\<rparr>, ''alice'')]"
    by (simp add: applied_session_eq pending_loans_query_def loans_join_users_def
        approved_loan_def alice_def alice_ledger_def)
  from applied_inst offered
  have pending:
    "status (fst ((approved_loan (Finite 100))\<lparr>status := ''pending''\<rparr>, ''alice'')) = ''pending''"
    by simp
  note new_inst = C4_status_moves_forward [OF approved_session_reached [of "Finite 100"],
      where c = "ApplyForLoan (Some (Finite 50)) (Some 12) 9"]
  have len: "length (loans (db (approved_session (Finite 100)))) = 1"
    "length (loans (db (step (approved_session (Finite 100))
                         (ApplyForLoan (Some (Finite 50)) (Some 12) 9)))) = 2"
    by (simp_all add: approved_eq step_def apply_for_loan_def alice_def alice_ledger_def
        int_truediv_numeral entity_defs number_defs)
  from new_inst len
  have new: "status (loans (db (step (approved_session (Finite 100))
      (ApplyForLoan (Some (Finite 50)) (Some 12) 9))) ! 1) = ''pending''"
    by simp
  note inst = C4_status_moves_forward [OF approved_session_reached [of "Finite 100"],
      where c = "MakePayment (Some 1) (Some (Finite 100)) 3" and choice_in = "Some 1"
        and action = "''r''"]
  have rows: "loans (db (approved_session (Finite 100))) = [approved_loan (Finite 100)]"
    by (simp add: approved_eq alice_ledger_def)
  have st: "status (loans (db (approved_session (Finite 100))) ! 0) \<noteq> ''pending''"
    by (simp add: rows approved_loan_def)
  have paid: "status (loans (db (step (approved_session (Finite 100))
      (MakePayment (Some 1) (Some (Finite 100)) 3))) ! 0) = ''paid''"
    by (simp add: approved_eq step_def payment_defs entity_defs number_defs)
  have n: "0 < length (loans (db (approved_session (Finite 100))))"
    by (simp add: rows)
  from inst n st
  have "loans (db (snd (approve_loans (Some 1) ''r'' (approved_session (Finite 100))))) ! 0 =
       loans (db (approved_session (Finite 100))) ! 0"
    by blast
  moreover from inst n
  have "status_path (status (loans (db (approved_session (Finite 100))) ! 0))
       (status (loans (db (step (approved_session (Finite 100))
                             (MakePayment (Some 1) (Some (Finite 100)) 3))) ! 0))"
    by blast
  ultimately show ?thesis
    using approved_session_reached [of "Finite 100"] rows st paid paid_session_reached paid_now
      paid_stays applied_session_reached offered pending len new
    by simp
qed

text \<open>Claim C4 as the specification states it fails. Two administrators each list the
  pending loans, the one loan of 100, before either answers the prompts. The first
  approves it. The second then rejects it from the list read before: the decision on a
  loan that is no longer pending succeeds, and the status moves from \<^verbatim>\<open>approved\<close> to
  \<^verbatim>\<open>rejected\<close>.\<close>

theorem C4_counterexample:
  "pending_loans_query (db applied_session) =
     [((approved_loan (Finite 100))\<lparr>status := ''pending''\<rparr>, ''alice'')]
   \<and> map status (loans (snd (approve_loans_decide
         [((approved_loan (Finite 100))\<lparr>status := ''pending''\<rparr>, ''alice'')] (Some 1) ''a''
         (db applied_session)))) = [''approved'']
   \<and> fst (approve_loans_decide
         [((approved_loan (Finite 100))\<lparr>status := ''pending''\<rparr>, ''alice'')] (Some 1) ''r''
         (snd (approve_loans_decide
            [((approved_loan (Finite 100))\<lparr>status := ''pending''\<rparr>, ''alice'')] (Some 1) ''a''
            (db applied_session)))) = ''Loan rejected.''
   \<and> map status (loans (snd (approve_loans_decide
         [((approved_loan (Finite 100))\<lparr>status := ''pending''\<rparr>, ''alice'')] (Some 1) ''r''
         (snd (approve_loans_decide
            [((approved_loan (Finite 100))\<lparr>status := ''pending''\<rparr>, ''alice'')] (Some 1) ''a''
            (db applied_session)))))) = [''rejected'']"
  by (simp add: applied_session_eq pending_loans_query_def loans_join_users_def
      approve_loans_decide_def update_loan_status_def approved_loan_def alice_def
      alice_ledger_def Let_def)

text \<open>
  Claim C9, evaluated. Two loans applied for at times 2 and 5 and still pending:
  \<^verbatim>\<open>Loan.get_user_loans\<close> and \<^verbatim>\<open>view_all_loans\<close> list the loan of time 5 first, the
  query of \<^verbatim>\<open>approve_loans\<close>, which has no \<^verbatim>\<open>ORDER BY\<close>, lists the loan of time 2
  first.
\<close>

theorem C9_pending_queue_order:
  "map (\<lambda>(l, u). (loan_created_at l, u))
     (pending_loans_query (db (run alice_session
        [ApplyForLoan (Some (Finite 100)) (Some 24) 2,
         ApplyForLoan (Some (Finite 200)) (Some 12) 5]))) =
     [(2, ''alice''), (5, ''alice'')]
   \<and> map (\<lambda>(l, u). (loan_created_at l, u))
     (view_all_loans (db (run alice_session
        [ApplyForLoan (Some (Finite 100)) (Some 24) 2,
         ApplyForLoan (Some (Finite 200)) (Some 12) 5]))) =
     [(5, ''alice''), (2, ''alice'')]
   \<and> map loan_created_at
     (Loan_get_user_loans (db (run alice_session
        [ApplyForLoan (Some (Finite 100)) (Some 24) 2,
         ApplyForLoan (Some (Finite 200)) (Some 12) 5])) (Some 2)) =
     [5, 2]"
  by (simp add: alice_session_eq step_def step_raises_def apply_for_loan_def
      pending_loans_query_def loans_join_users_def view_all_loans_def alice_def
      int_truediv_numeral error_line_def entity_defs number_defs)




subsection \<open>The ledger when the payments typed have at most two decimals\<close>






subsubsection \<open>A new loan\<close>




subsubsection \<open>A payment\<close>





subsubsection \<open>A decision\<close>




subsubsection \<open>The operations and the menus\<close>












subsection \<open>The ordered queries\<close>

text \<open>\<^verbatim>\<open>Loan.get_user_loans\<close> returns the loans of the user, each once, the most recently
  created first.\<close>

theorem Loan_get_user_loans_ordered:
  "sorted_wrt (\<lambda>a b. loan_created_at b \<le> loan_created_at a) (Loan_get_user_loans d (Some uid))
   \<and> mset (Loan_get_user_loans d (Some uid)) =
       filter_mset (\<lambda>r. loan_user_id r = Some uid) (mset (loans d))"
  by (simp add: Loan_get_user_loans_def sorted_order_by_desc mset_order_by_desc)

text \<open>\<^verbatim>\<open>Payment.get_loan_payments\<close> returns the payments of the loan, each once, the most
  recent first.\<close>

theorem Payment_get_loan_payments_ordered:
  "sorted_wrt (\<lambda>a b. payment_date b \<le> payment_date a) (Payment_get_loan_payments d (Some lid))
   \<and> mset (Payment_get_loan_payments d (Some lid)) =
       filter_mset (\<lambda>r. payment_loan_id r = Some lid) (mset (payments d))"
  by (simp add: Payment_get_loan_payments_def sorted_order_by_desc mset_order_by_desc)

text \<open>\<^verbatim>\<open>view_all_loans\<close> lists every loan row joined with its owner's name, the most
  recently created first.\<close>

theorem view_all_loans_ordered:
  "sorted_wrt (\<lambda>a b. loan_created_at (fst b) \<le> loan_created_at (fst a)) (view_all_loans d)
   \<and> mset (view_all_loans d) = mset (loans_join_users d)"
proof -
  have "sorted_wrt (\<lambda>a b. (case b of (l, u) \<Rightarrow> loan_created_at l)
                         \<le> (case a of (l, u) \<Rightarrow> loan_created_at l)) (view_all_loans d)"
    unfolding view_all_loans_def by (rule sorted_order_by_desc)
  then have "sorted_wrt (\<lambda>a b. loan_created_at (fst b) \<le> loan_created_at (fst a)) (view_all_loans d)"
    by (simp add: case_prod_unfold)
  then show ?thesis
    by (simp add: view_all_loans_def mset_order_by_desc)
qed

subsection \<open>The stored interest rate\<close>

text \<open>In every state the program reaches, whatever was typed, every stored loan carries
  the rate \<open>min (5 + term / 12) 15\<close> of its term rounded to two decimals, half away from
  zero: no operation writes another rate or another term.\<close>

theorem stored_interest_rate:
  assumes "s = run (LoanApplicationSystem_init None admin_hash t0) cmds"
  shows "\<forall>l \<in> set (loans (db s)).
           interest_rate l =
             Finite (of_int (round_half_away (min (5 + of_int (loan_term l) / 12) 15 * 100)) / 100)"
proof
  fix l assume "l \<in> set (loans (db s))"
  with reachable_schema [of admin_hash t0 cmds]
  have "numeric_cast 5 2 (Finite (min (5 + of_int (loan_term l) / 12) 15)) =
      Inr (interest_rate l)"
    by (simp add: assms schema_inv_def)
  then show "interest_rate l =
      Finite (of_int (round_half_away (min (5 + of_int (loan_term l) / 12) 15 * 100)) / 100)"
    by (simp add: numeric_cast_def Let_def split: if_splits)
qed

theorem stored_interest_rate_witness:
  "paying_session =
     run (LoanApplicationSystem_init None ''hash0'' 0)
       (approval_script (Finite 100) @ [MakePayment (Some 1) (Some (Finite 40)) 3])
   \<and> loans (db paying_session) = [(approved_loan (Finite 100))\<lparr>current_balance := Finite 60\<rparr>]
   \<and> loan_term ((approved_loan (Finite 100))\<lparr>current_balance := Finite 60\<rparr>) = 24
   \<and> interest_rate ((approved_loan (Finite 100))\<lparr>current_balance := Finite 60\<rparr>) = Finite 7"
proof -
  have rows: "loans (db paying_session) =
      [(approved_loan (Finite 100))\<lparr>current_balance := Finite 60\<rparr>]"
    by (simp add: paying_session_eq alice_ledger_def)
  have trm: "loan_term ((approved_loan (Finite 100))\<lparr>current_balance := Finite 60\<rparr>) = 24"
    by (simp add: approved_loan_def)
  from stored_interest_rate [OF paying_session_reached] rows trm
  have "interest_rate ((approved_loan (Finite 100))\<lparr>current_balance := Finite 60\<rparr>) = Finite 7"
    by (simp add: round_half_away_def floor_rat_numeral)
  then show ?thesis
    using paying_session_reached rows trm by simp
qed

end
